theory Spec2Isabelle
  imports Main "HOL-Library.Word"
begin

unbundle bit_operations_syntax

section \<open>The mode encoding of \<^verbatim>\<open>chmod.c\<close>\<close>

text \<open>
  \<^verbatim>\<open>USHORT\<close> is a 16-bit unsigned integer, \<^verbatim>\<open>ACCESS_MASK\<close> and \<^verbatim>\<open>DWORD\<close> are 32-bit.
  The C source writes modes in octal; HOL has no octal numerals, so \<open>oct a b c\<close> stands
  for the C literal \<^verbatim>\<open>0abc\<close> and the enumerators below give their value in decimal
  with the octal literal of the source beside it.
\<close>

type_synonym USHORT = "16 word"
type_synonym ACCESS_MASK = "32 word"

definition oct :: "nat \<Rightarrow> nat \<Rightarrow> nat \<Rightarrow> USHORT" where
  "oct a b c = of_nat (64 * a + 8 * b + c)"

text \<open>\<^verbatim>\<open>enum CHMOD_WHO\<close> (lines 21-28): NONE = 0, OTHER = 07, GROUP = 070, USER = 0700.\<close>

definition CHMOD_WHO_NONE :: USHORT where "CHMOD_WHO_NONE = 0"
definition CHMOD_WHO_OTHER :: USHORT where "CHMOD_WHO_OTHER = 7"
definition CHMOD_WHO_GROUP :: USHORT where "CHMOD_WHO_GROUP = 56"
definition CHMOD_WHO_USER :: USHORT where "CHMOD_WHO_USER = 448"
definition CHMOD_WHO_ALL :: USHORT where
  "CHMOD_WHO_ALL = CHMOD_WHO_OTHER OR CHMOD_WHO_GROUP OR CHMOD_WHO_USER"

text \<open>\<^verbatim>\<open>enum CHMOD_OP\<close> (lines 30-36).\<close>

datatype CHMOD_OP = CHMOD_OP_INVALID | CHMOD_OP_PLUS | CHMOD_OP_MINUS | CHMOD_OP_EQUAL

text \<open>\<^verbatim>\<open>enum CHMOD_PERM\<close> (lines 38-45): NA = 00, R = 01, W = 02, X = 04, LX = 010.\<close>

definition CHMOD_PERM_NA :: USHORT where "CHMOD_PERM_NA = 0"
definition CHMOD_PERM_R :: USHORT where "CHMOD_PERM_R = 1"
definition CHMOD_PERM_W :: USHORT where "CHMOD_PERM_W = 2"
definition CHMOD_PERM_X :: USHORT where "CHMOD_PERM_X = 4"
definition CHMOD_PERM_LX :: USHORT where "CHMOD_PERM_LX = 8"

text \<open>
  The three local constants of \<^verbatim>\<open>ComputeNewMode\<close> (lines 592-594):
  readMask = 0444, writeMask = 0222, exeMask = 0111.
\<close>

definition readMask :: USHORT where "readMask = 292"
definition writeMask :: USHORT where "writeMask = 146"
definition exeMask :: USHORT where "exeMask = 73"

text \<open>
  Modelled from the spec: \<^verbatim>\<open>UX_DIRECTORY\<close> is declared in \<^verbatim>\<open>common.h\<close>, which is
  not among the sources. The spec describes it as the directory flag that accompanies the
  nine permission bits; it is the Unix file-type bit 0040000, outside the nine bits.
\<close>

definition UX_DIRECTORY :: USHORT where "UX_DIRECTORY = 16384"

text \<open>
  Modelled from the spec: the nine \<^verbatim>\<open>UX_*\<close> permission bits of \<^verbatim>\<open>common.h\<close>, three
  bits (read, write, execute) for each of owner, group and other, in the layout the
  masks 0700/0070/0007 and 0444/0222/0111 of \<^verbatim>\<open>chmod.c\<close> itself use.
\<close>

definition UX_O_EXECUTE :: USHORT where "UX_O_EXECUTE = 1"
definition UX_O_WRITE :: USHORT where "UX_O_WRITE = 2"
definition UX_O_READ :: USHORT where "UX_O_READ = 4"
definition UX_G_EXECUTE :: USHORT where "UX_G_EXECUTE = 8"
definition UX_G_WRITE :: USHORT where "UX_G_WRITE = 16"
definition UX_G_READ :: USHORT where "UX_G_READ = 32"
definition UX_U_EXECUTE :: USHORT where "UX_U_EXECUTE = 64"
definition UX_U_WRITE :: USHORT where "UX_U_WRITE = 128"
definition UX_U_READ :: USHORT where "UX_U_READ = 256"

section \<open>ComputeNewMode\<close>

text \<open>
  The two tests of the conditional-execute rule (line 630): the old mode carries the
  directory flag, or it has an execute bit for some class.
\<close>

definition is_directory :: "USHORT \<Rightarrow> bool" where
  "is_directory oldMode = (oldMode AND UX_DIRECTORY = UX_DIRECTORY)"

definition has_execute :: "USHORT \<Rightarrow> bool" where
  "has_execute oldMode = (oldMode AND exeMask \<noteq> 0)"

text \<open>
  Lines 610-633: the mask of the literal permissions, built by the four successive
  \<^verbatim>\<open>mask |= ...\<close> statements, starting from \<^verbatim>\<open>mask = 0\<close>.
\<close>

definition literal_mask :: "USHORT \<Rightarrow> USHORT \<Rightarrow> USHORT" where
  "literal_mask oldMode perm =
     (if perm \<noteq> CHMOD_PERM_NA then
        let mask = 0;
            mask = (if perm AND CHMOD_PERM_R = CHMOD_PERM_R then mask OR readMask else mask);
            mask = (if perm AND CHMOD_PERM_W = CHMOD_PERM_W then mask OR writeMask else mask);
            mask = (if perm AND CHMOD_PERM_X = CHMOD_PERM_X then mask OR exeMask else mask);
            mask = (if perm AND CHMOD_PERM_LX = CHMOD_PERM_LX then
                      (if is_directory oldMode \<or> has_execute oldMode
                       then mask OR exeMask else mask)
                    else mask)
        in mask
      else 0)"

text \<open>Line 635, \<^verbatim>\<open>mask |= oldMode & ref\<close>: the mask before it is restricted to \<open>who\<close>.\<close>

definition constructed_mask :: "USHORT \<Rightarrow> USHORT \<Rightarrow> USHORT \<Rightarrow> USHORT" where
  "constructed_mask oldMode perm ref = literal_mask oldMode perm OR (oldMode AND ref)"

text \<open>
  \<^verbatim>\<open>ComputeNewMode\<close> (lines 588-653) as a release build runs it, where \<^verbatim>\<open>assert\<close>
  expands to nothing. \<^verbatim>\<open>mode\<close> starts at 0 and stays so when \<open>op\<close> is none of the three
  operators. The complement \<^verbatim>\<open>~mask\<close> is taken on the promoted \<^verbatim>\<open>int\<close> and the result
  is stored back into a \<^verbatim>\<open>USHORT\<close>, which is the 16-bit complement.
\<close>

definition ComputeNewMode :: "USHORT \<Rightarrow> USHORT \<Rightarrow> CHMOD_OP \<Rightarrow> USHORT \<Rightarrow> USHORT \<Rightarrow> USHORT" where
  "ComputeNewMode oldMode who op perm ref =
     (if perm = CHMOD_PERM_NA \<and> ref = CHMOD_WHO_NONE then oldMode
      else
        let mask = constructed_mask oldMode perm ref;
            mask = mask AND who
        in (case op of
              CHMOD_OP_EQUAL \<Rightarrow> mask
            | CHMOD_OP_MINUS \<Rightarrow> oldMode AND (NOT mask)
            | CHMOD_OP_PLUS \<Rightarrow> oldMode OR mask
            | CHMOD_OP_INVALID \<Rightarrow> 0))"

text \<open>
  The two assertions at the head of \<^verbatim>\<open>ComputeNewMode\<close> (lines 601-603), and the
  function as a build with assertions enabled runs it: a failed assertion aborts the
  program, which is the result \<open>None\<close>.
\<close>

definition ComputeNewMode_asserts :: "CHMOD_OP \<Rightarrow> USHORT \<Rightarrow> bool" where
  "ComputeNewMode_asserts op ref =
     ((op = CHMOD_OP_EQUAL \<or> op = CHMOD_OP_PLUS \<or> op = CHMOD_OP_MINUS) \<and>
      (ref = CHMOD_WHO_GROUP \<or> ref = CHMOD_WHO_USER \<or> ref = CHMOD_WHO_OTHER))"

definition ComputeNewMode_checked ::
    "USHORT \<Rightarrow> USHORT \<Rightarrow> CHMOD_OP \<Rightarrow> USHORT \<Rightarrow> USHORT \<Rightarrow> USHORT option" where
  "ComputeNewMode_checked oldMode who op perm ref =
     (if ComputeNewMode_asserts op ref then Some (ComputeNewMode oldMode who op perm ref)
      else None)"

section \<open>Mode change actions\<close>

text \<open>
  \<^verbatim>\<open>struct _MODE_CHANGE_ACTION\<close> (lines 58-65) without its \<^verbatim>\<open>next_action\<close> pointer:
  the linked list of actions is a HOL list, the \<^verbatim>\<open>NULL\<close> head is the empty list.
\<close>

record MODE_CHANGE_ACTION =
  who :: USHORT
  op :: CHMOD_OP
  perm :: USHORT
  ref :: USHORT

definition INIT_MODE_CHANGE_ACTION :: MODE_CHANGE_ACTION where
  "INIT_MODE_CHANGE_ACTION =
     \<lparr>who = CHMOD_WHO_NONE, op = CHMOD_OP_INVALID, perm = CHMOD_PERM_NA, ref = CHMOD_WHO_NONE\<rparr>"


section \<open>ParseOctalMode\<close>

text \<open>
  A mode string is the list of its characters before the terminating NUL.
  \<^verbatim>\<open>StringCchLengthW(s, cchMax, &len)\<close> of the Windows string library fails unless the
  terminator is found within the first \<open>cchMax\<close> characters; \<^verbatim>\<open>STRSAFE_MAX_CCH\<close> is
  2147483647 in \<^verbatim>\<open>strsafe.h\<close>.
\<close>

definition STRSAFE_MAX_CCH :: nat where "STRSAFE_MAX_CCH = 2147483647"

definition StringCchLengthW :: "string \<Rightarrow> nat \<Rightarrow> nat option" where
  "StringCchLengthW s cchMax = (if length s < cchMax then Some (length s) else None)"

text \<open>The test of lines 964-965: the character lies between \<^verbatim>\<open>L'0'\<close> and \<^verbatim>\<open>L'7'\<close>.\<close>

definition is_octal_digit :: "char \<Rightarrow> bool" where
  "is_octal_digit c = ((of_char (CHR ''0'') :: nat) \<le> of_char c \<and> (of_char c :: nat) \<le> of_char (CHR ''7''))"

definition digit_value :: "char \<Rightarrow> int" where
  "digit_value c = int (of_char c) - int (of_char (CHR ''0''))"

text \<open>
  \<^verbatim>\<open>wcstol(s, &end, 8)\<close> on a string that starts with a digit: it reads the longest
  prefix of octal digits, most significant first, and leaves \<^verbatim>\<open>end\<close> at the first
  character it did not read. (Leading white space, a sign and overflow of \<^verbatim>\<open>LONG\<close>
  play no part: \<^verbatim>\<open>ParseOctalMode\<close> calls it on at most four characters, all of them
  octal digits, so \<^verbatim>\<open>errno\<close> stays 0.)
\<close>

fun wcstol8 :: "string \<Rightarrow> int \<Rightarrow> int \<times> string" where
  "wcstol8 [] acc = (acc, [])"
| "wcstol8 (c # cs) acc =
     (if is_octal_digit c then wcstol8 cs (acc * 8 + digit_value c) else (acc, c # cs))"

text \<open>
  \<^verbatim>\<open>ParseOctalMode\<close> (lines 944-986). \<open>None\<close> is the return value \<^verbatim>\<open>FALSE\<close>,
  \<open>Some m\<close> is \<^verbatim>\<open>TRUE\<close> with \<^verbatim>\<open>*uMask = m\<close>. The loop of lines 962-967 returns
  \<^verbatim>\<open>FALSE\<close> as soon as one character is no octal digit. The bound \<^verbatim>\<open>0x0777\<close> of
  line 978 is hexadecimal in the source: 1911.
\<close>

definition ParseOctalMode :: "string \<Rightarrow> USHORT option" where
  "ParseOctalMode tsMask =
     (case StringCchLengthW tsMask STRSAFE_MAX_CCH of
        None \<Rightarrow> None
      | Some tsMaskLen \<Rightarrow>
          if tsMaskLen \<noteq> 4 \<and> tsMaskLen \<noteq> 3 then None
          else if \<not> list_all is_octal_digit tsMask then None
          else
            (case (if tsMaskLen = 4 then wcstol8 (tl tsMask) 0 else wcstol8 tsMask 0) of
               (l, end) \<Rightarrow>
                 if l > 1911 \<or> l < 0 \<or> end \<noteq> [] then None
                 else Some (word_of_int l)))"

section \<open>ParseMode\<close>

datatype PARSE_MODE_ACTION_STATE =
    PARSE_MODE_ACTION_WHO_STATE
  | PARSE_MODE_ACTION_OP_STATE
  | PARSE_MODE_ACTION_PERM_STATE
  | PARSE_MODE_ACTION_REF_STATE
  | PARSE_MODE_ACTION_END_STATE

text \<open>
  \<^verbatim>\<open>c = modeString[i]\<close> for \<open>i \<le> len\<close>: the character at \<open>i\<close>, and the terminating
  NUL at \<open>i = len\<close>.
\<close>

definition char_at :: "string \<Rightarrow> nat \<Rightarrow> char" where
  "char_at modeString i = (if i < length modeString then modeString ! i else CHR 0x00)"

text \<open>
  The \<^verbatim>\<open>while (i <= len)\<close> loop of \<^verbatim>\<open>ParseMode\<close> (lines 781-924), one iteration per
  unfolding. The arguments are the local variables \<^verbatim>\<open>state\<close>, \<^verbatim>\<open>action\<close>, \<^verbatim>\<open>i\<close> and
  the list built so far (\<^verbatim>\<open>*pActions\<close> up to \<^verbatim>\<open>actionsLast\<close>). \<open>None\<close> is
  \<^verbatim>\<open>return FALSE\<close>; leaving the loop is \<^verbatim>\<open>return TRUE\<close> with the list. In the END
  state the cases NUL and comma advance \<open>i\<close> and fall through to the operator cases.
  \<^verbatim>\<open>LocalAlloc\<close> of a list node is taken to succeed. The loop terminates: every
  iteration reads a character or moves to a state of lower \<open>rank\<close>, and the OP state, of
  the lowest rank, reads a character or fails.
\<close>

definition rank :: "PARSE_MODE_ACTION_STATE \<Rightarrow> nat" where
  "rank st = (case st of
      PARSE_MODE_ACTION_PERM_STATE \<Rightarrow> 4
    | PARSE_MODE_ACTION_REF_STATE \<Rightarrow> 3
    | PARSE_MODE_ACTION_END_STATE \<Rightarrow> 2
    | PARSE_MODE_ACTION_WHO_STATE \<Rightarrow> 1
    | PARSE_MODE_ACTION_OP_STATE \<Rightarrow> 0)"

function ParseMode_loop ::
    "string \<Rightarrow> PARSE_MODE_ACTION_STATE \<Rightarrow> MODE_CHANGE_ACTION \<Rightarrow> nat \<Rightarrow>
     MODE_CHANGE_ACTION list \<Rightarrow> MODE_CHANGE_ACTION list option" where
  "ParseMode_loop modeString state action i actions =
     (if i \<le> length modeString then
        let c = char_at modeString i in
        (case state of
           PARSE_MODE_ACTION_WHO_STATE \<Rightarrow>
             if c = CHR ''a'' then
               ParseMode_loop modeString PARSE_MODE_ACTION_WHO_STATE
                 (action\<lparr>who := who action OR CHMOD_WHO_ALL\<rparr>) (i + 1) actions
             else if c = CHR ''u'' then
               ParseMode_loop modeString PARSE_MODE_ACTION_WHO_STATE
                 (action\<lparr>who := who action OR CHMOD_WHO_USER\<rparr>) (i + 1) actions
             else if c = CHR ''g'' then
               ParseMode_loop modeString PARSE_MODE_ACTION_WHO_STATE
                 (action\<lparr>who := who action OR CHMOD_WHO_GROUP\<rparr>) (i + 1) actions
             else if c = CHR ''o'' then
               ParseMode_loop modeString PARSE_MODE_ACTION_WHO_STATE
                 (action\<lparr>who := who action OR CHMOD_WHO_OTHER\<rparr>) (i + 1) actions
             else ParseMode_loop modeString PARSE_MODE_ACTION_OP_STATE action i actions
         | PARSE_MODE_ACTION_OP_STATE \<Rightarrow>
             if c = CHR ''+'' then
               ParseMode_loop modeString PARSE_MODE_ACTION_PERM_STATE
                 (action\<lparr>op := CHMOD_OP_PLUS\<rparr>) (i + 1) actions
             else if c = CHR ''-'' then
               ParseMode_loop modeString PARSE_MODE_ACTION_PERM_STATE
                 (action\<lparr>op := CHMOD_OP_MINUS\<rparr>) (i + 1) actions
             else if c = CHR ''='' then
               ParseMode_loop modeString PARSE_MODE_ACTION_PERM_STATE
                 (action\<lparr>op := CHMOD_OP_EQUAL\<rparr>) (i + 1) actions
             else None
         | PARSE_MODE_ACTION_PERM_STATE \<Rightarrow>
             if c = CHR ''r'' then
               ParseMode_loop modeString PARSE_MODE_ACTION_PERM_STATE
                 (action\<lparr>perm := perm action OR CHMOD_PERM_R\<rparr>) (i + 1) actions
             else if c = CHR ''w'' then
               ParseMode_loop modeString PARSE_MODE_ACTION_PERM_STATE
                 (action\<lparr>perm := perm action OR CHMOD_PERM_W\<rparr>) (i + 1) actions
             else if c = CHR ''x'' then
               ParseMode_loop modeString PARSE_MODE_ACTION_PERM_STATE
                 (action\<lparr>perm := perm action OR CHMOD_PERM_X\<rparr>) (i + 1) actions
             else if c = CHR ''X'' then
               ParseMode_loop modeString PARSE_MODE_ACTION_PERM_STATE
                 (action\<lparr>perm := perm action OR CHMOD_PERM_LX\<rparr>) (i + 1) actions
             else ParseMode_loop modeString PARSE_MODE_ACTION_REF_STATE action i actions
         | PARSE_MODE_ACTION_REF_STATE \<Rightarrow>
             if c = CHR ''u'' then
               ParseMode_loop modeString PARSE_MODE_ACTION_REF_STATE
                 (action\<lparr>ref := CHMOD_WHO_USER\<rparr>) (i + 1) actions
             else if c = CHR ''g'' then
               ParseMode_loop modeString PARSE_MODE_ACTION_REF_STATE
                 (action\<lparr>ref := CHMOD_WHO_GROUP\<rparr>) (i + 1) actions
             else if c = CHR ''o'' then
               ParseMode_loop modeString PARSE_MODE_ACTION_REF_STATE
                 (action\<lparr>ref := CHMOD_WHO_OTHER\<rparr>) (i + 1) actions
             else ParseMode_loop modeString PARSE_MODE_ACTION_END_STATE action i actions
         | PARSE_MODE_ACTION_END_STATE \<Rightarrow>
             if c = CHR 0x00 \<or> c = CHR '','' \<or> c = CHR ''+'' \<or> c = CHR ''-'' \<or> c = CHR ''=''
             then
               let i' = (if c = CHR 0x00 \<or> c = CHR '','' then i + 1 else i);
                   finished = (if who action = CHMOD_WHO_NONE
                               then action\<lparr>who := CHMOD_WHO_ALL\<rparr> else action);
                   lastWho = who finished;
                   fresh = (if c \<noteq> CHR '','' then INIT_MODE_CHANGE_ACTION\<lparr>who := lastWho\<rparr>
                            else INIT_MODE_CHANGE_ACTION)
               in ParseMode_loop modeString PARSE_MODE_ACTION_WHO_STATE fresh i'
                    (actions @ [finished])
             else None)
      else Some actions)"
  by pat_completeness auto
termination
  by (relation "measure (\<lambda>(s, st, a, i, acts). 6 * (length s + 1 - i) + rank st)")
     (auto simp: rank_def)

text \<open>
  \<^verbatim>\<open>ParseMode\<close> (lines 754-926), called with \<^verbatim>\<open>*pActions == NULL\<close> as \<^verbatim>\<open>Chmod\<close>
  does: the parser starts in the WHO state with the initial action at \<open>i = 0\<close>.
\<close>

definition ParseMode :: "string \<Rightarrow> MODE_CHANGE_ACTION list option" where
  "ParseMode modeString =
     (case StringCchLengthW modeString STRSAFE_MAX_CCH of
        None \<Rightarrow> None
      | Some len \<Rightarrow>
          ParseMode_loop modeString PARSE_MODE_ACTION_WHO_STATE INIT_MODE_CHANGE_ACTION 0 [])"

text \<open>
  The last step of \<^verbatim>\<open>ParseCommandLineArguments\<close> (lines 526-535): the octal parser
  first, the symbolic parser when it fails. The result is the pair of the out-parameters
  \<^verbatim>\<open>*mask\<close> and \<^verbatim>\<open>*actions\<close>, which \<^verbatim>\<open>Chmod\<close> initialises to 0 and \<^verbatim>\<open>NULL\<close>.
\<close>

definition parse_mask_string :: "string \<Rightarrow> (USHORT \<times> MODE_CHANGE_ACTION list) option" where
  "parse_mask_string maskString =
     (case ParseOctalMode maskString of
        Some uMask \<Rightarrow> Some (uMask, [])
      | None \<Rightarrow>
          (case ParseMode maskString of
             Some actions \<Rightarrow> Some (0, actions)
           | None \<Rightarrow> None))"

section \<open>Resolving the actions against the current mode\<close>

text \<open>
  \<^verbatim>\<open>ConvertActionsToMask\<close> (lines 669-709) for one path. The two queries it makes are
  parameters: \<open>fileInformation\<close> is the answer of \<^verbatim>\<open>GetFileInformationByName\<close>
  (\<open>None\<close> for an error code, \<open>Some d\<close> with \<open>d\<close> the result of \<^verbatim>\<open>IsDirFileInfo\<close>),
  and \<open>FindFileOwnerAndPermission\<close> maps the value of its in-out parameter \<^verbatim>\<open>mode\<close>
  before the call to the value after it (\<open>None\<close> when it returns \<^verbatim>\<open>FALSE\<close>). Both
  functions live in the library of the repository, outside \<^verbatim>\<open>chmod.c\<close>. The \<^verbatim>\<open>for\<close>
  loop over the linked list is a left fold.
\<close>

definition ConvertActionsToMask ::
    "bool option \<Rightarrow> (USHORT \<Rightarrow> USHORT option) \<Rightarrow> MODE_CHANGE_ACTION list \<Rightarrow> USHORT option" where
  "ConvertActionsToMask fileInformation FindFileOwnerAndPermission actions =
     (case fileInformation of
        None \<Rightarrow> None
      | Some isDir \<Rightarrow>
          (case FindFileOwnerAndPermission (if isDir then 0 OR UX_DIRECTORY else 0) of
             None \<Rightarrow> None
           | Some mode \<Rightarrow>
               if actions = [] then Some mode
               else Some (foldl (\<lambda>mode curr.
                           ComputeNewMode mode (who curr) (op curr) (perm curr) (ref curr))
                         mode actions)))"

text \<open>
  \<^verbatim>\<open>ChangeFileModeByActions\<close> (lines 724-733) and \<^verbatim>\<open>ChangeFileMode\<close> (lines 181-188).
  \<open>ChangeFileModeByMask\<close>, which writes the access control list of the object, is a
  parameter: the function from the mask it is given to its return value.
\<close>

definition ChangeFileModeByActions ::
    "bool option \<Rightarrow> (USHORT \<Rightarrow> USHORT option) \<Rightarrow> (USHORT \<Rightarrow> bool) \<Rightarrow>
     MODE_CHANGE_ACTION list \<Rightarrow> bool" where
  "ChangeFileModeByActions fileInformation FindFileOwnerAndPermission ChangeFileModeByMask actions =
     (case ConvertActionsToMask fileInformation FindFileOwnerAndPermission actions of
        Some m \<Rightarrow> ChangeFileModeByMask m
      | None \<Rightarrow> False)"

definition ChangeFileMode ::
    "bool option \<Rightarrow> (USHORT \<Rightarrow> USHORT option) \<Rightarrow> (USHORT \<Rightarrow> bool) \<Rightarrow>
     USHORT \<Rightarrow> MODE_CHANGE_ACTION list \<Rightarrow> bool" where
  "ChangeFileMode fileInformation FindFileOwnerAndPermission ChangeFileModeByMask
       unixAccessMask actions =
     (if actions \<noteq> [] then
        ChangeFileModeByActions fileInformation FindFileOwnerAndPermission
          ChangeFileModeByMask actions
      else ChangeFileModeByMask unixAccessMask)"

section \<open>The access control list of a mask\<close>

text \<open>
  \<^verbatim>\<open>WinMasks\<close> is a table of the repository's library, indexed by the enumeration
  below; it is not in \<^verbatim>\<open>chmod.c\<close> and is a parameter of the functions that read it.
  \<^verbatim>\<open>FILE_GENERIC_READ\<close> is the Windows constant 0x120089.
\<close>

datatype WindowsAclMask = WIN_READ | WIN_WRITE | WIN_EXECUTE | WIN_OWNER_SE | WIN_ALL

definition FILE_GENERIC_READ :: ACCESS_MASK where "FILE_GENERIC_READ = 0x120089"

record access_masks =
  userAllow :: ACCESS_MASK
  userDeny :: ACCESS_MASK
  groupAllow :: ACCESS_MASK
  groupDeny :: ACCESS_MASK
  otherAllow :: ACCESS_MASK

text \<open>\<^verbatim>\<open>GetWindowsAccessMask\<close> (lines 1001-1070); the record holds its five out-parameters.\<close>

definition GetWindowsAccessMask :: "(WindowsAclMask \<Rightarrow> ACCESS_MASK) \<Rightarrow> USHORT \<Rightarrow> access_masks" where
  "GetWindowsAccessMask WinMasks unixMask =
     (let ua = WinMasks WIN_ALL OR WinMasks WIN_OWNER_SE;
          ua = (if unixMask AND UX_U_READ = UX_U_READ then ua OR WinMasks WIN_READ else ua);
          ua = (if unixMask AND UX_U_WRITE = UX_U_WRITE then ua OR WinMasks WIN_WRITE else ua);
          ua = (if unixMask AND UX_U_EXECUTE = UX_U_EXECUTE then ua OR WinMasks WIN_EXECUTE else ua);
          ud = 0;
          ud = (if unixMask AND UX_U_READ \<noteq> UX_U_READ \<and>
                   (unixMask AND UX_G_READ = UX_G_READ \<or> unixMask AND UX_O_READ = UX_O_READ)
                then ud OR WinMasks WIN_READ else ud);
          ud = (if unixMask AND UX_U_WRITE \<noteq> UX_U_WRITE \<and>
                   (unixMask AND UX_G_WRITE = UX_G_WRITE \<or> unixMask AND UX_O_WRITE = UX_O_WRITE)
                then ud OR WinMasks WIN_WRITE else ud);
          ud = (if unixMask AND UX_U_EXECUTE \<noteq> UX_U_EXECUTE \<and>
                   (unixMask AND UX_G_EXECUTE = UX_G_EXECUTE \<or>
                    unixMask AND UX_O_EXECUTE = UX_O_EXECUTE)
                then ud OR WinMasks WIN_EXECUTE else ud);
          ga = WinMasks WIN_ALL;
          ga = (if unixMask AND UX_G_READ = UX_G_READ then ga OR FILE_GENERIC_READ else ga);
          ga = (if unixMask AND UX_G_WRITE = UX_G_WRITE then ga OR WinMasks WIN_WRITE else ga);
          ga = (if unixMask AND UX_G_EXECUTE = UX_G_EXECUTE then ga OR WinMasks WIN_EXECUTE else ga);
          gd = 0;
          gd = (if unixMask AND UX_G_READ \<noteq> UX_G_READ \<and> unixMask AND UX_O_READ = UX_O_READ
                then gd OR WinMasks WIN_READ else gd);
          gd = (if unixMask AND UX_G_WRITE \<noteq> UX_G_WRITE \<and> unixMask AND UX_O_WRITE = UX_O_WRITE
                then gd OR WinMasks WIN_WRITE else gd);
          gd = (if unixMask AND UX_G_EXECUTE \<noteq> UX_G_EXECUTE \<and>
                   unixMask AND UX_O_EXECUTE = UX_O_EXECUTE
                then gd OR WinMasks WIN_EXECUTE else gd);
          oa = WinMasks WIN_ALL;
          oa = (if unixMask AND UX_O_READ = UX_O_READ then oa OR WinMasks WIN_READ else oa);
          oa = (if unixMask AND UX_O_WRITE = UX_O_WRITE then oa OR WinMasks WIN_WRITE else oa);
          oa = (if unixMask AND UX_O_EXECUTE = UX_O_EXECUTE then oa OR WinMasks WIN_EXECUTE else oa)
      in \<lparr>userAllow = ua, userDeny = ud, groupAllow = ga, groupDeny = gd, otherAllow = oa\<rparr>)"

text \<open>
  An access control entry names its kind, its access mask and its principal; an access
  control list under construction is the size of its buffer and the entries added so
  far, in order. The principals (\<^verbatim>\<open>PSID\<close>) are values of an arbitrary type.
\<close>

datatype 'sid ACE = ACCESS_DENIED_ACE ACCESS_MASK 'sid | ACCESS_ALLOWED_ACE ACCESS_MASK 'sid

record 'sid ACL =
  AclSize :: "32 word"
  AceList :: "'sid ACE list"

text \<open>
  The Windows calls of \<^verbatim>\<open>GetWindowsDACLs\<close> and their outcome:
  \<^verbatim>\<open>AllocateAndInitializeSid\<close> yields the Everyone principal or fails,
  \<^verbatim>\<open>GetLengthSid\<close> is the length of a principal, \<^verbatim>\<open>LocalAlloc\<close> and
  \<^verbatim>\<open>InitializeAcl\<close> succeed or fail for a buffer size, and adding an entry to a list
  succeeds or fails.
\<close>

record 'sid acl_natives =
  AllocateAndInitializeSid :: "'sid option"
  GetLengthSid :: "'sid \<Rightarrow> 32 word"
  LocalAlloc :: "32 word \<Rightarrow> bool"
  InitializeAcl :: "32 word \<Rightarrow> bool"
  AddAce :: "'sid ACL \<Rightarrow> 'sid ACE \<Rightarrow> bool"

definition AddAccessDeniedAce ::
    "'sid acl_natives \<Rightarrow> 'sid ACL \<Rightarrow> ACCESS_MASK \<Rightarrow> 'sid \<Rightarrow> 'sid ACL option" where
  "AddAccessDeniedAce N acl m sid =
     (if AddAce N acl (ACCESS_DENIED_ACE m sid)
      then Some (acl\<lparr>AceList := AceList acl @ [ACCESS_DENIED_ACE m sid]\<rparr>) else None)"

definition AddAccessAllowedAce ::
    "'sid acl_natives \<Rightarrow> 'sid ACL \<Rightarrow> ACCESS_MASK \<Rightarrow> 'sid \<Rightarrow> 'sid ACL option" where
  "AddAccessAllowedAce N acl m sid =
     (if AddAce N acl (ACCESS_ALLOWED_ACE m sid)
      then Some (acl\<lparr>AceList := AceList acl @ [ACCESS_ALLOWED_ACE m sid]\<rparr>) else None)"

text \<open>
  The sizes of the Windows structures that the buffer size of lines 1120-1132 adds up:
  \<^verbatim>\<open>sizeof(ACL)\<close> is 8, \<^verbatim>\<open>sizeof(ACCESS_ALLOWED_ACE)\<close> and
  \<^verbatim>\<open>sizeof(ACCESS_DENIED_ACE)\<close> are 12, \<^verbatim>\<open>sizeof(DWORD)\<close> is 4.
\<close>

definition dwNewAclSize ::
    "'sid acl_natives \<Rightarrow> access_masks \<Rightarrow> 'sid \<Rightarrow> 'sid \<Rightarrow> 'sid \<Rightarrow> 32 word" where
  "dwNewAclSize N m pOwnerSid pGroupSid pEveryoneSid =
     (let n = 8;
          n = n + 12 + GetLengthSid N pOwnerSid - 4;
          n = (if userDeny m \<noteq> 0 then n + 12 + GetLengthSid N pOwnerSid - 4 else n);
          n = n + 12 + GetLengthSid N pGroupSid - 4;
          n = (if groupDeny m \<noteq> 0 then n + 12 + GetLengthSid N pGroupSid - 4 else n);
          n = n + 12 + GetLengthSid N pEveryoneSid - 4
      in n)"

text \<open>
  \<^verbatim>\<open>GetWindowsDACLs\<close> (lines 1085-1186): \<open>None\<close> is \<^verbatim>\<open>FALSE\<close>, \<open>Some acl\<close> is
  \<^verbatim>\<open>TRUE\<close> with \<^verbatim>\<open>*ppNewDACL = acl\<close>. A deny entry is added only when its mask is not 0.
\<close>

definition GetWindowsDACLs ::
    "'sid acl_natives \<Rightarrow> (WindowsAclMask \<Rightarrow> ACCESS_MASK) \<Rightarrow> USHORT \<Rightarrow> 'sid \<Rightarrow> 'sid \<Rightarrow>
     'sid ACL option" where
  "GetWindowsDACLs N WinMasks unixMask pOwnerSid pGroupSid =
     (let m = GetWindowsAccessMask WinMasks unixMask in
      case AllocateAndInitializeSid N of
        None \<Rightarrow> None
      | Some pEveryoneSid \<Rightarrow>
          let n = dwNewAclSize N m pOwnerSid pGroupSid pEveryoneSid in
          if \<not> LocalAlloc N n then None
          else if \<not> InitializeAcl N n then None
          else
            (case (if userDeny m \<noteq> 0
                   then AddAccessDeniedAce N \<lparr>AclSize = n, AceList = []\<rparr> (userDeny m) pOwnerSid
                   else Some \<lparr>AclSize = n, AceList = []\<rparr>) of
               None \<Rightarrow> None
             | Some acl1 \<Rightarrow>
            (case AddAccessAllowedAce N acl1 (userAllow m) pOwnerSid of
               None \<Rightarrow> None
             | Some acl2 \<Rightarrow>
            (case (if groupDeny m \<noteq> 0
                   then AddAccessDeniedAce N acl2 (groupDeny m) pGroupSid
                   else Some acl2) of
               None \<Rightarrow> None
             | Some acl3 \<Rightarrow>
            (case AddAccessAllowedAce N acl3 (groupAllow m) pGroupSid of
               None \<Rightarrow> None
             | Some acl4 \<Rightarrow>
                 AddAccessAllowedAce N acl4 (otherAllow m) pEveryoneSid)))))"

section \<open>Command line and the recursive walk\<close>

text \<open>
  A call of a function outside \<^verbatim>\<open>chmod.c\<close> (of the operating system or of the
  repository's library), by the name of the function and the path it is given.
\<close>

datatype native_call = NativeCall string string

record chmod_args =
  arg_rec :: bool
  arg_mask :: USHORT
  arg_actions :: "MODE_CHANGE_ACTION list"
  arg_path :: string

text \<open>
  \<^verbatim>\<open>ParseCommandLineArguments\<close> (lines 479-536). \<open>argv\<close> is the argument vector and
  \<^verbatim>\<open>argc\<close> its length. The parameter \<open>GetFileInformationByName\<close> answers the query of
  line 505 (\<open>None\<close> for an error code, \<open>Some d\<close> with \<open>d\<close> the result of
  \<^verbatim>\<open>IsDirFileInfo\<close>). The result is \<open>None\<close> for \<^verbatim>\<open>FALSE\<close> or the four out-parameters,
  together with the operating system calls made, in order.
\<close>

definition ParseCommandLineArguments ::
    "(string \<Rightarrow> bool option) \<Rightarrow> string list \<Rightarrow> chmod_args option \<times> native_call list" where
  "ParseCommandLineArguments GetFileInformationByName argv =
     (let argc = length argv in
      if argc \<noteq> 3 \<and> argc \<noteq> 4 then (None, [])
      else
        (case (if argc = 4 then
                 (let maskString = argv ! 2; path = argv ! 3 in
                  if argv ! 1 = ''-R'' then
                    (case GetFileInformationByName path of
                       None \<Rightarrow> (None, [NativeCall ''GetFileInformationByName'' path])
                     | Some isDir \<Rightarrow>
                         (Some (isDir, maskString, path),
                          [NativeCall ''GetFileInformationByName'' path]))
                  else (None, []))
               else (Some (False, argv ! 1, argv ! 2), [])) of
           (None, calls) \<Rightarrow> (None, calls)
         | (Some (rec, maskString, path), calls) \<Rightarrow>
             (case parse_mask_string maskString of
                Some (m, actions) \<Rightarrow>
                  (Some \<lparr>arg_rec = rec, arg_mask = m, arg_actions = actions, arg_path = path\<rparr>,
                   calls)
              | None \<Rightarrow> (None, calls))))"

text \<open>
  \<^verbatim>\<open>Chmod\<close> (lines 112-166). The functions it calls once the arguments are parsed are
  parameters, each returning its result and the calls outside \<^verbatim>\<open>chmod.c\<close> it made:
  \<open>ConvertToLongPath\<close> (of the repository's library), and \<open>changeMode\<close> and
  \<open>changeModeRecursively\<close> for \<^verbatim>\<open>ChangeFileMode\<close> and
  \<^verbatim>\<open>ChangeFileModeRecursively\<close> in the file system at hand.
\<close>

definition EXIT_SUCCESS :: int where "EXIT_SUCCESS = 0"
definition EXIT_FAILURE :: int where "EXIT_FAILURE = 1"

definition Chmod ::
    "(string \<Rightarrow> bool option) \<Rightarrow> (string \<Rightarrow> string option) \<Rightarrow>
     (string \<Rightarrow> USHORT \<Rightarrow> MODE_CHANGE_ACTION list \<Rightarrow> bool \<times> native_call list) \<Rightarrow>
     (string \<Rightarrow> USHORT \<Rightarrow> MODE_CHANGE_ACTION list \<Rightarrow> bool \<times> native_call list) \<Rightarrow>
     string list \<Rightarrow> int \<times> native_call list" where
  "Chmod GetFileInformationByName ConvertToLongPath changeMode changeModeRecursively argv =
     (case ParseCommandLineArguments GetFileInformationByName argv of
        (None, calls) \<Rightarrow> (EXIT_FAILURE, calls)
      | (Some a, calls) \<Rightarrow>
          (case ConvertToLongPath (arg_path a) of
             None \<Rightarrow> (EXIT_FAILURE, calls @ [NativeCall ''ConvertToLongPath'' (arg_path a)])
           | Some longPathName \<Rightarrow>
               (case (if \<not> arg_rec a
                      then changeMode longPathName (arg_mask a) (arg_actions a)
                      else changeModeRecursively longPathName (arg_mask a) (arg_actions a)) of
                  (ok, calls') \<Rightarrow>
                    (if ok then EXIT_SUCCESS else EXIT_FAILURE,
                     calls @ [NativeCall ''ConvertToLongPath'' (arg_path a)] @ calls'))))"

text \<open>
  What \<^verbatim>\<open>ChangeFileModeRecursively\<close> finds at a path: \<open>NoInfo\<close> when
  \<^verbatim>\<open>GetFileInformationByName\<close> fails; \<open>File ok\<close> for an object that is no directory,
  \<open>ok\<close> being the result of \<^verbatim>\<open>ChangeFileMode\<close> on it; \<open>Dir ok entries\<close> for a
  directory, with the entries that \<^verbatim>\<open>FindFirstFile\<close> and \<^verbatim>\<open>FindNextFileW\<close> enumerate,
  in order, each with what is found at it (the empty list when \<^verbatim>\<open>FindFirstFile\<close>
  returns \<^verbatim>\<open>INVALID_HANDLE_VALUE\<close>), and the result of \<^verbatim>\<open>ChangeFileMode\<close> on the
  directory.
\<close>

datatype fsobj = NoInfo | File bool | Dir bool "(string \<times> fsobj) list"

text \<open>\<^verbatim>\<open>MAX_PATH\<close> is the Windows constant 260.\<close>

definition MAX_PATH :: nat where "MAX_PATH = 260"

text \<open>
  \<^verbatim>\<open>ChangeFileModeRecursively\<close> (lines 205-312) and its \<^verbatim>\<open>do ... while\<close> loop over
  the entries of a directory. The result is the return value and the paths on which
  \<^verbatim>\<open>ChangeFileMode\<close> was called, in order. The entries \<^verbatim>\<open>"."\<close> and \<^verbatim>\<open>".."\<close> are
  skipped; the name of a child is the path, a backslash and the entry. \<^verbatim>\<open>LocalAlloc\<close>
  and the string copies into buffers of the computed size are taken to succeed.
\<close>

fun ChangeFileModeRecursively :: "string \<Rightarrow> fsobj \<Rightarrow> bool \<times> string list"
  and walk_entries :: "string \<Rightarrow> (string \<times> fsobj) list \<Rightarrow> bool \<times> string list" where
  "ChangeFileModeRecursively path NoInfo = (False, [])"
| "ChangeFileModeRecursively path (File ok) = (ok, [path])"
| "ChangeFileModeRecursively path (Dir ok entries) =
     (case StringCchLengthW path (MAX_PATH - 3) of
        None \<Rightarrow> (False, [])
      | Some pathSize \<Rightarrow>
          if entries = [] then (False, [])
          else
            (case walk_entries path entries of
               (False, calls) \<Rightarrow> (False, calls)
             | (True, calls) \<Rightarrow> (ok, calls @ [path])))"
| "walk_entries path [] = (True, [])"
| "walk_entries path (e # entries) =
     (if fst e = ''.'' \<or> fst e = ''..'' then walk_entries path entries
      else
        (case ChangeFileModeRecursively (path @ [CHR 0x5C] @ fst e) (snd e) of
           (False, calls) \<Rightarrow> (False, calls)
         | (True, calls) \<Rightarrow>
             (case walk_entries path entries of
                (r, calls') \<Rightarrow> (r, calls @ calls'))))"

section \<open>Notions used to state the properties\<close>

text \<open>
  The action as the END state stores it in the list (line 897): an empty \<open>who\<close> has
  become \<open>all\<close>.
\<close>

definition finished_action :: "MODE_CHANGE_ACTION \<Rightarrow> MODE_CHANGE_ACTION" where
  "finished_action action =
     (if who action = CHMOD_WHO_NONE then action\<lparr>who := CHMOD_WHO_ALL\<rparr> else action)"

text \<open>
  The meaning of the letters of a clause, for stating what the parser makes of a clause
  \<open>who* op perm*\<close>: the selector a \<open>who\<close> letter adds, the operator of an operator
  character, the permission a \<open>perm\<close> letter adds.
\<close>

definition who_letter :: "USHORT \<Rightarrow> char \<Rightarrow> USHORT" where
  "who_letter w c =
     (if c = CHR ''a'' then w OR CHMOD_WHO_ALL
      else if c = CHR ''u'' then w OR CHMOD_WHO_USER
      else if c = CHR ''g'' then w OR CHMOD_WHO_GROUP
      else if c = CHR ''o'' then w OR CHMOD_WHO_OTHER
      else w)"

definition perm_letter :: "USHORT \<Rightarrow> char \<Rightarrow> USHORT" where
  "perm_letter p c =
     (if c = CHR ''r'' then p OR CHMOD_PERM_R
      else if c = CHR ''w'' then p OR CHMOD_PERM_W
      else if c = CHR ''x'' then p OR CHMOD_PERM_X
      else if c = CHR ''X'' then p OR CHMOD_PERM_LX
      else p)"

definition op_letter :: "char \<Rightarrow> CHMOD_OP" where
  "op_letter c =
     (if c = CHR ''+'' then CHMOD_OP_PLUS
      else if c = CHR ''-'' then CHMOD_OP_MINUS
      else if c = CHR ''='' then CHMOD_OP_EQUAL
      else CHMOD_OP_INVALID)"

definition clause_action :: "string \<Rightarrow> char \<Rightarrow> string \<Rightarrow> MODE_CHANGE_ACTION" where
  "clause_action ws c ps =
     finished_action
       \<lparr>who = foldl who_letter CHMOD_WHO_NONE ws, op = op_letter c,
        perm = foldl perm_letter CHMOD_PERM_NA ps, ref = CHMOD_WHO_NONE\<rparr>"

text \<open>
  An action as \<^verbatim>\<open>ComputeNewMode\<close> expects it from the parser: some class in \<open>who\<close>,
  one of the three operators, and a reference that is empty or one class. The second
  predicate is what holds of the action under construction in a state of the parser:
  the operator is set once the OP state is passed.
\<close>

definition wellformed_action :: "MODE_CHANGE_ACTION \<Rightarrow> bool" where
  "wellformed_action a =
     (who a \<noteq> CHMOD_WHO_NONE \<and> op a \<noteq> CHMOD_OP_INVALID \<and>
      (ref a = CHMOD_WHO_NONE \<or> ref a = CHMOD_WHO_USER \<or> ref a = CHMOD_WHO_GROUP \<or>
       ref a = CHMOD_WHO_OTHER))"

definition pending_ok :: "PARSE_MODE_ACTION_STATE \<Rightarrow> MODE_CHANGE_ACTION \<Rightarrow> bool" where
  "pending_ok st a =
     ((st = PARSE_MODE_ACTION_WHO_STATE \<or> st = PARSE_MODE_ACTION_OP_STATE \<or>
       op a \<noteq> CHMOD_OP_INVALID) \<and>
      (ref a = CHMOD_WHO_NONE \<or> ref a = CHMOD_WHO_USER \<or> ref a = CHMOD_WHO_GROUP \<or>
       ref a = CHMOD_WHO_OTHER))"

text \<open>
  The mask that \<^verbatim>\<open>ChangeFileMode\<close> hands to \<^verbatim>\<open>ChangeFileModeByMask\<close> for a mode string:
  the octal mask itself, or the mask that \<^verbatim>\<open>ConvertActionsToMask\<close> computes from the
  actions (lemma \<open>ChangeFileMode_final_mask\<close> below). \<open>file_permissions current\<close> is
  the permission query on an object whose permission bits are \<open>current\<close>.
\<close>

definition final_mask ::
    "string \<Rightarrow> bool option \<Rightarrow> (USHORT \<Rightarrow> USHORT option) \<Rightarrow> USHORT option" where
  "final_mask maskString fileInformation FindFileOwnerAndPermission =
     (case parse_mask_string maskString of
        None \<Rightarrow> None
      | Some (m, actions) \<Rightarrow>
          if actions \<noteq> []
          then ConvertActionsToMask fileInformation FindFileOwnerAndPermission actions
          else Some m)"

definition file_permissions :: "USHORT \<Rightarrow> USHORT \<Rightarrow> USHORT option" where
  "file_permissions current mode = Some (mode OR current)"

text \<open>
  The law of the deny entries in the words of the specification: class \<open>C\<close> is denied
  right \<open>R\<close> if and only if \<open>C\<close> lacks \<open>R\<close> in the mask and some broader class possesses
  \<open>R\<close>. Group and other are broader than owner, other is broader than group.
  \<open>deny_mask\<close> is the union of the Windows rights of the denied rights, and an access
  mask contains a right when it contains every bit of that right's Windows mask.
\<close>

datatype perm_class = Owner | Group | Other

datatype right = Read | Write | Execute

definition ux_bit :: "perm_class \<Rightarrow> right \<Rightarrow> USHORT" where
  "ux_bit C R = (case (C, R) of
      (Owner, Read) \<Rightarrow> UX_U_READ | (Owner, Write) \<Rightarrow> UX_U_WRITE
    | (Owner, Execute) \<Rightarrow> UX_U_EXECUTE
    | (Group, Read) \<Rightarrow> UX_G_READ | (Group, Write) \<Rightarrow> UX_G_WRITE
    | (Group, Execute) \<Rightarrow> UX_G_EXECUTE
    | (Other, Read) \<Rightarrow> UX_O_READ | (Other, Write) \<Rightarrow> UX_O_WRITE
    | (Other, Execute) \<Rightarrow> UX_O_EXECUTE)"

definition has_right :: "USHORT \<Rightarrow> perm_class \<Rightarrow> right \<Rightarrow> bool" where
  "has_right unixMask C R = (unixMask AND ux_bit C R = ux_bit C R)"

definition broader :: "perm_class \<Rightarrow> perm_class list" where
  "broader C = (case C of Owner \<Rightarrow> [Group, Other] | Group \<Rightarrow> [Other] | Other \<Rightarrow> [])"

definition denied :: "USHORT \<Rightarrow> perm_class \<Rightarrow> right \<Rightarrow> bool" where
  "denied unixMask C R =
     (\<not> has_right unixMask C R \<and> list_ex (\<lambda>C'. has_right unixMask C' R) (broader C))"

definition win_right :: "right \<Rightarrow> WindowsAclMask" where
  "win_right R = (case R of Read \<Rightarrow> WIN_READ | Write \<Rightarrow> WIN_WRITE | Execute \<Rightarrow> WIN_EXECUTE)"

definition deny_mask ::
    "(WindowsAclMask \<Rightarrow> ACCESS_MASK) \<Rightarrow> USHORT \<Rightarrow> perm_class \<Rightarrow> ACCESS_MASK" where
  "deny_mask WinMasks unixMask C =
     (if denied unixMask C Read then WinMasks WIN_READ else 0) OR
     (if denied unixMask C Write then WinMasks WIN_WRITE else 0) OR
     (if denied unixMask C Execute then WinMasks WIN_EXECUTE else 0)"

definition contains_right ::
    "(WindowsAclMask \<Rightarrow> ACCESS_MASK) \<Rightarrow> ACCESS_MASK \<Rightarrow> right \<Rightarrow> bool" where
  "contains_right WinMasks m R = (m AND WinMasks (win_right R) = WinMasks (win_right R))"

text \<open>
  The table tells the three rights apart when none of the read, write and execute masks
  is empty and no two of them share a bit.
\<close>

definition separate_rights :: "(WindowsAclMask \<Rightarrow> ACCESS_MASK) \<Rightarrow> bool" where
  "separate_rights WinMasks =
     (WinMasks WIN_READ \<noteq> 0 \<and> WinMasks WIN_WRITE \<noteq> 0 \<and> WinMasks WIN_EXECUTE \<noteq> 0 \<and>
      WinMasks WIN_READ AND WinMasks WIN_WRITE = 0 \<and>
      WinMasks WIN_READ AND WinMasks WIN_EXECUTE = 0 \<and>
      WinMasks WIN_WRITE AND WinMasks WIN_EXECUTE = 0)"

text \<open>
  An example of the table, in the values of the Windows constants: read is \<^verbatim>\<open>FILE_READ_DATA\<close>; write is \<^verbatim>\<open>FILE_WRITE_DATA\<close>,
  \<^verbatim>\<open>FILE_WRITE_ATTRIBUTES\<close>, \<^verbatim>\<open>FILE_APPEND_DATA\<close>, \<^verbatim>\<open>FILE_WRITE_EA\<close> and
  \<^verbatim>\<open>FILE_DELETE_CHILD\<close>; execute is \<^verbatim>\<open>FILE_EXECUTE\<close>; the owner's extra rights are
  \<^verbatim>\<open>DELETE\<close>, \<^verbatim>\<open>WRITE_DAC\<close>, \<^verbatim>\<open>WRITE_OWNER\<close>, \<^verbatim>\<open>FILE_WRITE_EA\<close> and
  \<^verbatim>\<open>FILE_WRITE_ATTRIBUTES\<close>; the baseline is \<^verbatim>\<open>READ_CONTROL\<close>, \<^verbatim>\<open>FILE_READ_EA\<close>,
  \<^verbatim>\<open>FILE_READ_ATTRIBUTES\<close> and \<^verbatim>\<open>SYNCHRONIZE\<close>. It serves as a concrete table for
  the examples.
\<close>

definition example_WinMasks :: "WindowsAclMask \<Rightarrow> ACCESS_MASK" where
  "example_WinMasks k = (case k of
      WIN_READ \<Rightarrow> 0x1
    | WIN_WRITE \<Rightarrow> 0x156
    | WIN_EXECUTE \<Rightarrow> 0x20
    | WIN_OWNER_SE \<Rightarrow> 0xD0110
    | WIN_ALL \<Rightarrow> 0x120088)"

text \<open>Windows calls that always succeed, with principals named by strings.\<close>

definition example_natives :: "string acl_natives" where
  "example_natives =
     \<lparr>AllocateAndInitializeSid = Some ''Everyone'', GetLengthSid = (\<lambda>sid. 12),
      LocalAlloc = (\<lambda>n. True), InitializeAcl = (\<lambda>n. True), AddAce = (\<lambda>acl ace. True)\<rparr>"

text \<open>
  The walk of the specification: the objects under a path in post-order, every child of
  a directory except the two pseudo-entries, each with all that lies below it, before
  the directory itself.
\<close>

fun post_order :: "string \<Rightarrow> fsobj \<Rightarrow> string list"
  and post_order_entries :: "string \<Rightarrow> (string \<times> fsobj) list \<Rightarrow> string list" where
  "post_order path NoInfo = []"
| "post_order path (File ok) = [path]"
| "post_order path (Dir ok entries) = post_order_entries path entries @ [path]"
| "post_order_entries path [] = []"
| "post_order_entries path (e # entries) =
     (if fst e = ''.'' \<or> fst e = ''..'' then []
      else post_order (path @ [CHR 0x5C] @ fst e) (snd e)) @ post_order_entries path entries"

text \<open>
  The walk of the specification with its failures: what the walk would do at each
  object, in post-order. At an object that is no directory, and at a directory after
  all its children, the change is applied, with the given outcome; where the metadata
  cannot be read, the path is too long or the directory cannot be listed, nothing is
  applied and the walk fails. The walk runs through these attempts in order and stops
  at the first that fails: it succeeds when none fails, and its calls are the attempts
  up to and including the first failing one.
\<close>

datatype attempt = Applied string bool | Unreadable

fun attempts :: "string \<Rightarrow> fsobj \<Rightarrow> attempt list"
  and attempts_entries :: "string \<Rightarrow> (string \<times> fsobj) list \<Rightarrow> attempt list" where
  "attempts path NoInfo = [Unreadable]"
| "attempts path (File ok) = [Applied path ok]"
| "attempts path (Dir ok entries) =
     (if length path < MAX_PATH - 3 \<and> entries \<noteq> []
      then attempts_entries path entries @ [Applied path ok]
      else [Unreadable])"
| "attempts_entries path [] = []"
| "attempts_entries path (e # entries) =
     (if fst e = ''.'' \<or> fst e = ''..'' then []
      else attempts (path @ [CHR 0x5C] @ fst e) (snd e)) @ attempts_entries path entries"

definition attempt_ok :: "attempt \<Rightarrow> bool" where
  "attempt_ok a = (case a of Applied path ok \<Rightarrow> ok | Unreadable \<Rightarrow> False)"

fun run_until_failure :: "attempt list \<Rightarrow> bool \<times> string list" where
  "run_until_failure [] = (True, [])"
| "run_until_failure (Unreadable # rest) = (False, [])"
| "run_until_failure (Applied path ok # rest) =
     (if ok then (fst (run_until_failure rest), path # snd (run_until_failure rest))
      else (False, [path]))"


section \<open>Properties of ComputeNewMode\<close>

declare ParseMode_loop.simps [simp del]

lemmas chmod_consts =
  CHMOD_WHO_NONE_def CHMOD_WHO_OTHER_def CHMOD_WHO_GROUP_def CHMOD_WHO_USER_def
  CHMOD_WHO_ALL_def CHMOD_PERM_NA_def CHMOD_PERM_R_def CHMOD_PERM_W_def CHMOD_PERM_X_def
  CHMOD_PERM_LX_def readMask_def writeMask_def exeMask_def UX_DIRECTORY_def

lemmas compute_defs =
  ComputeNewMode_def constructed_mask_def literal_mask_def is_directory_def has_execute_def

lemma or8_and:
  "(p OR 8) AND 1 = p AND (1::16 word)"
  "(p OR 8) AND 2 = p AND (2::16 word)"
  "(p OR 8) AND 4 = p AND (4::16 word)"
  "(p OR 8) AND 8 = (8::16 word)"
  by (simp_all add: bit.conj_disj_distrib2)

lemma or8_nonzero: "(p OR 8) \<noteq> (0::16 word)"
proof
  assume "p OR 8 = 0"
  then have "(p OR 8) AND 8 = (0::16 word)" by simp
  then show False by (simp add: or8_and)
qed

text \<open>The literal mask as the union of one contribution per permission letter.\<close>

lemma literal_mask_closed:
  "literal_mask old p =
     (if p = 0 then 0 else
      (if p AND 1 = 1 then readMask else 0) OR
      (if p AND 2 = 2 then writeMask else 0) OR
      (if p AND 4 = 4 then exeMask else 0) OR
      (if p AND 8 = 8 \<and> (is_directory old \<or> has_execute old) then exeMask else 0))"
  by (simp add: literal_mask_def Let_def CHMOD_PERM_NA_def CHMOD_PERM_R_def CHMOD_PERM_W_def
      CHMOD_PERM_X_def CHMOD_PERM_LX_def or.assoc)

lemma literal_mask_LX:
  "literal_mask old (p OR CHMOD_PERM_LX) =
     literal_mask old p OR (if is_directory old \<or> has_execute old then exeMask else 0)"
proof (cases "p = 0")
  case True
  then show ?thesis
    by (simp add: literal_mask_closed CHMOD_PERM_LX_def)
next
  case False
  then show ?thesis
    by (simp add: literal_mask_closed CHMOD_PERM_LX_def or8_and or8_nonzero or.assoc)
qed

text \<open>
  The operators \<open>+\<close> and \<open>-\<close> leave every bit outside \<open>who\<close> as it was; the operator
  \<open>=\<close> clears every bit outside \<open>who\<close>, the directory flag included, whenever the
  action has a permission or a reference.
\<close>

text \<open>X3. The operator \<open>+\<close> leaves every bit outside \<open>who\<close> as it was.\<close>

theorem plus_keeps_outside_who:
  "ComputeNewMode old w CHMOD_OP_PLUS p r AND NOT w = old AND NOT w"
  by (cases "p = CHMOD_PERM_NA \<and> r = CHMOD_WHO_NONE")
     (auto simp: ComputeNewMode_def Let_def bit_eq_iff bit_simps)

text \<open>X4. The operator \<open>-\<close> leaves every bit outside \<open>who\<close> as it was.\<close>

theorem minus_keeps_outside_who:
  "ComputeNewMode old w CHMOD_OP_MINUS p r AND NOT w = old AND NOT w"
  by (cases "p = CHMOD_PERM_NA \<and> r = CHMOD_WHO_NONE")
     (auto simp: ComputeNewMode_def Let_def bit_eq_iff bit_simps)

lemma equal_clears_outside_who:
  "\<not> (p = CHMOD_PERM_NA \<and> r = CHMOD_WHO_NONE) \<Longrightarrow>
   ComputeNewMode old w CHMOD_OP_EQUAL p r AND NOT w = 0"
  by (auto simp: ComputeNewMode_def Let_def bit_eq_iff bit_simps)

text \<open>
  A reference to a class outside \<open>who\<close> contributes nothing: the bits of the referenced
  class are taken where they stand and are removed again by the restriction to \<open>who\<close>.
\<close>

lemma reference_outside_who_is_lost:
  assumes "w AND r = 0"
  shows "ComputeNewMode old w CHMOD_OP_PLUS CHMOD_PERM_NA r = old"
proof -
  have "(old AND r) AND w = old AND (w AND r)"
    by (simp add: and.assoc and.commute and.left_commute)
  then have "(old AND r) AND w = 0"
    using assms by simp
  then show ?thesis
    by (simp add: ComputeNewMode_def Let_def constructed_mask_def literal_mask_def)
qed

text \<open>
  C1. The claim: the operator \<open>=\<close> leaves the bits of the classes outside \<open>who\<close> as
  they were in the old mode. The code assigns the restricted mask to the new mode
  (line 641): for the action \<open>u=rwx\<close> on the mode 0644 the result is 0700, the
  group and other bits of the old mode are gone.
\<close>

theorem set_equal_drops_bits_outside_who:
  "ComputeNewMode (oct 6 4 4) CHMOD_WHO_USER CHMOD_OP_EQUAL
     (CHMOD_PERM_R OR CHMOD_PERM_W OR CHMOD_PERM_X) CHMOD_WHO_NONE = oct 7 0 0"
  by (simp add: compute_defs oct_def chmod_consts)

text \<open>
  C3. The claim: with a reference class the mask is the referenced class's bits of the
  old mode, replicated across the three classes, so that the classes of \<open>who\<close> receive
  them. The code takes \<^verbatim>\<open>oldMode & ref\<close> without replicating it (line 635): the action
  \<open>u+g\<close> on the mode 0070 leaves 0070, the owner receives nothing of the group's bits.
\<close>

theorem reference_bits_are_not_replicated:
  "ComputeNewMode (oct 0 7 0) CHMOD_WHO_USER CHMOD_OP_PLUS CHMOD_PERM_NA CHMOD_WHO_GROUP
     = oct 0 7 0"
  by (simp add: compute_defs oct_def chmod_consts)

text \<open>
  The same loss for an action that passes the assertions of \<^verbatim>\<open>ComputeNewMode\<close>:
  \<open>u=u\<close> on the mode 0644 yields 0600.
\<close>

lemma set_equal_with_reference:
  "ComputeNewMode_checked (oct 6 4 4) CHMOD_WHO_USER CHMOD_OP_EQUAL CHMOD_PERM_NA CHMOD_WHO_USER
     = Some (oct 6 0 0)"
  by (simp add: ComputeNewMode_checked_def ComputeNewMode_asserts_def compute_defs oct_def
      chmod_consts)

text \<open>
  C5. For every old mode, adding the conditional-execute letter \<open>X\<close> to the permissions
  of an action adds the execute triple 0111 to the mask built before the restriction to
  \<open>who\<close> exactly when the old mode has the directory flag or an execute bit of some
  class, and adds nothing otherwise; for \<open>X\<close> alone the mask is 0111 in the first case
  and 0 in the second, and \<open>+X\<close> sets this mask, restricted to \<open>who\<close>, in the old mode.
\<close>

theorem conditional_execute_contribution:
  "constructed_mask old (p OR CHMOD_PERM_LX) r =
     constructed_mask old p r OR (if is_directory old \<or> has_execute old then exeMask else 0)
   \<and> (literal_mask old CHMOD_PERM_LX = exeMask) = (is_directory old \<or> has_execute old)
   \<and> (literal_mask old CHMOD_PERM_LX = 0) = (\<not> (is_directory old \<or> has_execute old))
   \<and> ComputeNewMode old w CHMOD_OP_PLUS CHMOD_PERM_LX CHMOD_WHO_NONE =
       old OR ((if is_directory old \<or> has_execute old then exeMask else 0) AND w)"
proof -
  have a: "constructed_mask old (p OR CHMOD_PERM_LX) r =
     constructed_mask old p r OR (if is_directory old \<or> has_execute old then exeMask else 0)"
    unfolding constructed_mask_def literal_mask_LX by (simp add: ac_simps)
  have l: "literal_mask old CHMOD_PERM_LX =
     (if is_directory old \<or> has_execute old then exeMask else 0)"
    by (simp add: literal_mask_closed CHMOD_PERM_LX_def)
  have e: "exeMask \<noteq> 0"
    by (simp add: exeMask_def)
  have b: "(literal_mask old CHMOD_PERM_LX = exeMask) = (is_directory old \<or> has_execute old)"
    using e by (auto simp: l)
  have c: "(literal_mask old CHMOD_PERM_LX = 0) = (\<not> (is_directory old \<or> has_execute old))"
    using e by (auto simp: l)
  have d: "ComputeNewMode old w CHMOD_OP_PLUS CHMOD_PERM_LX CHMOD_WHO_NONE =
       old OR ((if is_directory old \<or> has_execute old then exeMask else 0) AND w)"
    by (simp add: ComputeNewMode_def constructed_mask_def l [unfolded CHMOD_PERM_LX_def]
        CHMOD_PERM_LX_def CHMOD_PERM_NA_def CHMOD_WHO_NONE_def)
  from a b c d show ?thesis by blast
qed

text \<open>
  X1. The action \<open>a=rwx\<close> yields the mode 0777 whatever the old mode is.
\<close>

theorem set_equal_all_rwx:
  "ComputeNewMode old CHMOD_WHO_ALL CHMOD_OP_EQUAL
     (CHMOD_PERM_R OR CHMOD_PERM_W OR CHMOD_PERM_X) CHMOD_WHO_NONE = oct 7 7 7"
  by (simp add: compute_defs oct_def chmod_consts)

lemma cond_mono:
  "is_directory old \<or> has_execute old \<Longrightarrow> is_directory (old OR x) \<or> has_execute (old OR x)"
  by (auto simp: is_directory_def has_execute_def bit_eq_iff bit_simps)

lemma literal_mask_same_condition:
  "(is_directory a \<or> has_execute a) = (is_directory b \<or> has_execute b) \<Longrightarrow>
   literal_mask a p = literal_mask b p"
  by (simp add: literal_mask_closed)

lemma literal_mask_with_x:
  "p AND 4 = 4 \<Longrightarrow> literal_mask a p = literal_mask b p"
  by (auto simp: literal_mask_closed or.assoc)

lemma literal_mask_without_x:
  "p AND 4 \<noteq> 4 \<Longrightarrow> \<not> (is_directory old \<or> has_execute old) \<Longrightarrow>
   literal_mask old p AND exeMask = 0 \<and> literal_mask old p AND UX_DIRECTORY = 0"
  by (simp add: literal_mask_closed readMask_def writeMask_def exeMask_def UX_DIRECTORY_def)

text \<open>
  X2. An action with the operator \<open>+\<close> and literal permissions is idempotent: applied
  to its own result it changes nothing, the conditional-execute letter included.
\<close>

theorem plus_is_idempotent:
  "ComputeNewMode (ComputeNewMode old w CHMOD_OP_PLUS p CHMOD_WHO_NONE) w CHMOD_OP_PLUS p
      CHMOD_WHO_NONE
   = ComputeNewMode old w CHMOD_OP_PLUS p CHMOD_WHO_NONE"
proof (cases "p = 0")
  case True
  then show ?thesis by (simp add: ComputeNewMode_def CHMOD_PERM_NA_def CHMOD_WHO_NONE_def)
next
  case False
  define m where "m = literal_mask old p"
  define new where "new = old OR (m AND w)"
  have first: "ComputeNewMode old w CHMOD_OP_PLUS p CHMOD_WHO_NONE = new"
    using False by (simp add: ComputeNewMode_def constructed_mask_def CHMOD_PERM_NA_def
        CHMOD_WHO_NONE_def new_def m_def)
  have again: "ComputeNewMode new w CHMOD_OP_PLUS p CHMOD_WHO_NONE =
      new OR (literal_mask new p AND w)"
    using False by (simp add: ComputeNewMode_def constructed_mask_def CHMOD_PERM_NA_def
        CHMOD_WHO_NONE_def)
  have same: "literal_mask new p = m"
  proof (cases "is_directory old \<or> has_execute old")
    case True
    then have "is_directory new \<or> has_execute new"
      unfolding new_def by (rule cond_mono)
    with True show ?thesis
      unfolding m_def by (intro literal_mask_same_condition) simp
  next
    case no: False
    show ?thesis
    proof (cases "p AND 4 = 4")
      case True
      then show ?thesis unfolding m_def by (rule literal_mask_with_x)
    next
      case nx: False
      have z: "m AND exeMask = 0" "m AND UX_DIRECTORY = 0"
        using literal_mask_without_x [OF nx no] by (simp_all add: m_def)
      have "(m AND w) AND exeMask = (m AND exeMask) AND w"
        "(m AND w) AND UX_DIRECTORY = (m AND UX_DIRECTORY) AND w"
        by (simp_all add: and.assoc and.commute and.left_commute)
      then have "new AND exeMask = old AND exeMask" "new AND UX_DIRECTORY = old AND UX_DIRECTORY"
        by (simp_all add: new_def bit.conj_disj_distrib2 z)
      then have "\<not> (is_directory new \<or> has_execute new)"
        using no by (simp add: is_directory_def has_execute_def)
      with no show ?thesis
        unfolding m_def by (intro literal_mask_same_condition) simp
    qed
  qed
  have "new OR (m AND w) = new"
    by (simp add: new_def or.assoc)
  then show ?thesis
    by (simp only: first again same)
qed

section \<open>Properties of ParseOctalMode\<close>

lemma digit_value_range: "is_octal_digit c \<Longrightarrow> 0 \<le> digit_value c \<and> digit_value c \<le> 7"
  by (auto simp: is_octal_digit_def digit_value_def)

lemma oct_digits:
  assumes "list_all is_octal_digit [a, b, c]"
  shows "word_of_int (64 * digit_value a + 8 * digit_value b + digit_value c)
     = oct (nat (digit_value a)) (nat (digit_value b)) (nat (digit_value c))"
proof -
  have "0 \<le> digit_value a" "0 \<le> digit_value b" "0 \<le> digit_value c"
    using assms digit_value_range by auto
  then have "64 * digit_value a + 8 * digit_value b + digit_value c
    = int (64 * nat (digit_value a) + 8 * nat (digit_value b) + nat (digit_value c))"
    by simp
  then show ?thesis
    unfolding oct_def by (metis of_int_of_nat_eq)
qed

lemma ParseOctalMode_three:
  assumes "list_all is_octal_digit [a, b, c]"
  shows "ParseOctalMode [a, b, c] =
     Some (oct (nat (digit_value a)) (nat (digit_value b)) (nat (digit_value c)))"
proof -
  have r: "0 \<le> digit_value a \<and> digit_value a \<le> 7" "0 \<le> digit_value b \<and> digit_value b \<le> 7"
     "0 \<le> digit_value c \<and> digit_value c \<le> 7"
    using assms digit_value_range by auto
  have "ParseOctalMode [a, b, c] =
     Some (word_of_int (64 * digit_value a + 8 * digit_value b + digit_value c))"
    using assms r by (simp add: ParseOctalMode_def StringCchLengthW_def STRSAFE_MAX_CCH_def)
  then show ?thesis
    using oct_digits [OF assms] by simp
qed

lemma ParseOctalMode_four:
  assumes "list_all is_octal_digit [z, a, b, c]"
  shows "ParseOctalMode [z, a, b, c] =
     Some (oct (nat (digit_value a)) (nat (digit_value b)) (nat (digit_value c)))"
proof -
  have abc: "list_all is_octal_digit [a, b, c]" using assms by simp
  have r: "0 \<le> digit_value a \<and> digit_value a \<le> 7" "0 \<le> digit_value b \<and> digit_value b \<le> 7"
     "0 \<le> digit_value c \<and> digit_value c \<le> 7"
    using abc digit_value_range by auto
  have "ParseOctalMode [z, a, b, c] =
     Some (word_of_int (64 * digit_value a + 8 * digit_value b + digit_value c))"
    using assms r by (simp add: ParseOctalMode_def StringCchLengthW_def STRSAFE_MAX_CCH_def)
  then show ?thesis
    using oct_digits [OF abc] by simp
qed

lemma length_three: "length s = 3 \<Longrightarrow> \<exists>a b c. s = [a, b, c]"
  by (cases s; simp; cases "tl s"; simp; cases "tl (tl s)"; auto)

lemma length_four: "length s = 4 \<Longrightarrow> \<exists>z a b c. s = [z, a, b, c]"
proof -
  assume l: "length s = 4"
  then obtain z s' where s: "s = z # s'" by (cases s) auto
  with l have "length s' = 3" by simp
  then obtain a b c where "s' = [a, b, c]" using length_three by blast
  with s show ?thesis by blast
qed

lemma ParseOctalMode_accepts:
  "(ParseOctalMode s \<noteq> None) = ((length s = 3 \<or> length s = 4) \<and> list_all is_octal_digit s)"
proof
  assume "ParseOctalMode s \<noteq> None"
  then show "(length s = 3 \<or> length s = 4) \<and> list_all is_octal_digit s"
    by (auto simp: ParseOctalMode_def StringCchLengthW_def split: if_splits)
next
  assume h: "(length s = 3 \<or> length s = 4) \<and> list_all is_octal_digit s"
  then consider "length s = 3" | "length s = 4" by blast
  then show "ParseOctalMode s \<noteq> None"
  proof cases
    case 1
    then obtain a b c where "s = [a, b, c]" using length_three by blast
    with h ParseOctalMode_three show ?thesis by simp
  next
    case 2
    then obtain z a b c where "s = [z, a, b, c]" using length_four by blast
    with h ParseOctalMode_four show ?thesis by simp
  qed
qed

section \<open>Properties of ParseMode\<close>

lemmas parse_eval =
  parse_mask_string_def ParseOctalMode_def ParseMode_def StringCchLengthW_def STRSAFE_MAX_CCH_def
  ParseMode_loop.simps char_at_def INIT_MODE_CHANGE_ACTION_def is_octal_digit_def digit_value_def

lemma char_at_mid: "char_at (pre @ c # post) (length pre) = c"
  by (simp add: char_at_def)

lemma char_at_end: "char_at s (length s) = CHR 0x00"
  by (simp add: char_at_def)

text \<open>One iteration of the loop in each state.\<close>

lemma who_to_op:
  "i \<le> length s \<Longrightarrow> char_at s i \<notin> {CHR ''a'', CHR ''u'', CHR ''g'', CHR ''o''} \<Longrightarrow>
   ParseMode_loop s PARSE_MODE_ACTION_WHO_STATE a i acts =
   ParseMode_loop s PARSE_MODE_ACTION_OP_STATE a i acts"
  by (subst ParseMode_loop.simps) simp

lemma op_step:
  "i \<le> length s \<Longrightarrow> char_at s i \<in> {CHR ''+'', CHR ''-'', CHR ''=''} \<Longrightarrow>
   ParseMode_loop s PARSE_MODE_ACTION_OP_STATE a i acts =
   ParseMode_loop s PARSE_MODE_ACTION_PERM_STATE (a\<lparr>op := op_letter (char_at s i)\<rparr>) (i + 1) acts"
  by (subst ParseMode_loop.simps) (auto simp: op_letter_def)

lemma perm_to_ref:
  "i \<le> length s \<Longrightarrow> char_at s i \<notin> {CHR ''r'', CHR ''w'', CHR ''x'', CHR ''X''} \<Longrightarrow>
   ParseMode_loop s PARSE_MODE_ACTION_PERM_STATE a i acts =
   ParseMode_loop s PARSE_MODE_ACTION_REF_STATE a i acts"
  by (subst ParseMode_loop.simps) simp

lemma ref_to_end:
  "i \<le> length s \<Longrightarrow> char_at s i \<notin> {CHR ''u'', CHR ''g'', CHR ''o''} \<Longrightarrow>
   ParseMode_loop s PARSE_MODE_ACTION_REF_STATE a i acts =
   ParseMode_loop s PARSE_MODE_ACTION_END_STATE a i acts"
  by (subst ParseMode_loop.simps) simp

lemma loop_exit:
  "length s < i \<Longrightarrow> ParseMode_loop s st a i acts = Some acts"
  by (subst ParseMode_loop.simps) simp

lemma end_operator:
  "i \<le> length s \<Longrightarrow> char_at s i \<in> {CHR ''+'', CHR ''-'', CHR ''=''} \<Longrightarrow>
   ParseMode_loop s PARSE_MODE_ACTION_END_STATE a i acts =
   ParseMode_loop s PARSE_MODE_ACTION_WHO_STATE
     (INIT_MODE_CHANGE_ACTION\<lparr>who := who (finished_action a)\<rparr>) i (acts @ [finished_action a])"
  by (subst ParseMode_loop.simps) (auto simp: finished_action_def Let_def)

lemma end_comma:
  "i \<le> length s \<Longrightarrow> char_at s i = CHR '','' \<Longrightarrow>
   ParseMode_loop s PARSE_MODE_ACTION_END_STATE a i acts =
   ParseMode_loop s PARSE_MODE_ACTION_WHO_STATE INIT_MODE_CHANGE_ACTION (i + 1)
     (acts @ [finished_action a])"
  by (subst ParseMode_loop.simps) (auto simp: finished_action_def Let_def)

lemma end_nul:
  "i \<le> length s \<Longrightarrow> char_at s i = CHR 0x00 \<Longrightarrow>
   ParseMode_loop s PARSE_MODE_ACTION_END_STATE a i acts =
   ParseMode_loop s PARSE_MODE_ACTION_WHO_STATE
     (INIT_MODE_CHANGE_ACTION\<lparr>who := who (finished_action a)\<rparr>) (i + 1)
     (acts @ [finished_action a])"
  by (subst ParseMode_loop.simps) (auto simp: finished_action_def Let_def)

lemma perm_at_end:
  "ParseMode_loop s PARSE_MODE_ACTION_PERM_STATE a (length s) acts =
     Some (acts @ [finished_action a])"
  by (simp add: perm_to_ref ref_to_end end_nul loop_exit char_at_end)

text \<open>The WHO state reads a run of \<open>who\<close> letters, the PERM state a run of \<open>perm\<close> letters.\<close>

lemma who_phase:
  "set ws \<subseteq> {CHR ''a'', CHR ''u'', CHR ''g'', CHR ''o''} \<Longrightarrow>
   ParseMode_loop (pre @ ws @ post) PARSE_MODE_ACTION_WHO_STATE a (length pre) acts =
   ParseMode_loop (pre @ ws @ post) PARSE_MODE_ACTION_WHO_STATE
     (a\<lparr>who := foldl who_letter (who a) ws\<rparr>) (length pre + length ws) acts"
proof (induction ws arbitrary: pre a)
  case Nil
  then show ?case by simp
next
  case (Cons c ws)
  have c: "c \<in> {CHR ''a'', CHR ''u'', CHR ''g'', CHR ''o''}" using Cons.prems by simp
  have ws: "set ws \<subseteq> {CHR ''a'', CHR ''u'', CHR ''g'', CHR ''o''}" using Cons.prems by simp
  have step:
    "ParseMode_loop (pre @ (c # ws) @ post) PARSE_MODE_ACTION_WHO_STATE a (length pre) acts =
     ParseMode_loop (pre @ (c # ws) @ post) PARSE_MODE_ACTION_WHO_STATE
       (a\<lparr>who := who_letter (who a) c\<rparr>) (length pre + 1) acts"
    using c
    by (subst ParseMode_loop.simps) (auto simp: char_at_mid who_letter_def)
  have "ParseMode_loop ((pre @ [c]) @ ws @ post) PARSE_MODE_ACTION_WHO_STATE
           (a\<lparr>who := who_letter (who a) c\<rparr>) (length (pre @ [c])) acts =
        ParseMode_loop ((pre @ [c]) @ ws @ post) PARSE_MODE_ACTION_WHO_STATE
           (a\<lparr>who := who_letter (who a) c\<rparr>
             \<lparr>who := foldl who_letter (who (a\<lparr>who := who_letter (who a) c\<rparr>)) ws\<rparr>)
           (length (pre @ [c]) + length ws) acts"
    by (rule Cons.IH [OF ws])
  then show ?case
    using step by simp
qed

lemma perm_phase:
  "set ps \<subseteq> {CHR ''r'', CHR ''w'', CHR ''x'', CHR ''X''} \<Longrightarrow>
   ParseMode_loop (pre @ ps @ post) PARSE_MODE_ACTION_PERM_STATE a (length pre) acts =
   ParseMode_loop (pre @ ps @ post) PARSE_MODE_ACTION_PERM_STATE
     (a\<lparr>perm := foldl perm_letter (perm a) ps\<rparr>) (length pre + length ps) acts"
proof (induction ps arbitrary: pre a)
  case Nil
  then show ?case by simp
next
  case (Cons c ps)
  have c: "c \<in> {CHR ''r'', CHR ''w'', CHR ''x'', CHR ''X''}" using Cons.prems by simp
  have ps: "set ps \<subseteq> {CHR ''r'', CHR ''w'', CHR ''x'', CHR ''X''}" using Cons.prems by simp
  have step:
    "ParseMode_loop (pre @ (c # ps) @ post) PARSE_MODE_ACTION_PERM_STATE a (length pre) acts =
     ParseMode_loop (pre @ (c # ps) @ post) PARSE_MODE_ACTION_PERM_STATE
       (a\<lparr>perm := perm_letter (perm a) c\<rparr>) (length pre + 1) acts"
    using c
    by (subst ParseMode_loop.simps) (auto simp: char_at_mid perm_letter_def)
  have "ParseMode_loop ((pre @ [c]) @ ps @ post) PARSE_MODE_ACTION_PERM_STATE
           (a\<lparr>perm := perm_letter (perm a) c\<rparr>) (length (pre @ [c])) acts =
        ParseMode_loop ((pre @ [c]) @ ps @ post) PARSE_MODE_ACTION_PERM_STATE
           (a\<lparr>perm := perm_letter (perm a) c\<rparr>
             \<lparr>perm := foldl perm_letter (perm (a\<lparr>perm := perm_letter (perm a) c\<rparr>)) ps\<rparr>)
           (length (pre @ [c]) + length ps) acts"
    by (rule Cons.IH [OF ps])
  then show ?case
    using step by simp
qed

text \<open>A clause \<open>who* op perm*\<close> alone parses to one action, without a reference.\<close>

lemma literal_clause:
  assumes ws: "set ws \<subseteq> {CHR ''a'', CHR ''u'', CHR ''g'', CHR ''o''}"
      and c: "c \<in> {CHR ''+'', CHR ''-'', CHR ''=''}"
      and ps: "set ps \<subseteq> {CHR ''r'', CHR ''w'', CHR ''x'', CHR ''X''}"
  shows "ParseMode_loop (ws @ c # ps) PARSE_MODE_ACTION_WHO_STATE INIT_MODE_CHANGE_ACTION 0 [] =
     Some [clause_action ws c ps]"
proof -
  let ?s = "ws @ c # ps"
  let ?a1 = "INIT_MODE_CHANGE_ACTION\<lparr>who := foldl who_letter CHMOD_WHO_NONE ws\<rparr>"
  let ?a2 = "?a1\<lparr>op := op_letter c\<rparr>"
  let ?a3 = "?a2\<lparr>perm := foldl perm_letter (perm ?a2) ps\<rparr>"
  have 1: "ParseMode_loop ?s PARSE_MODE_ACTION_WHO_STATE INIT_MODE_CHANGE_ACTION 0 [] =
        ParseMode_loop ?s PARSE_MODE_ACTION_WHO_STATE ?a1 (length ws) []"
    using who_phase [OF ws, of "[]" "c # ps" INIT_MODE_CHANGE_ACTION "[]"]
    by (simp add: INIT_MODE_CHANGE_ACTION_def)
  have cat: "char_at ?s (length ws) = c" by (rule char_at_mid)
  have 2: "ParseMode_loop ?s PARSE_MODE_ACTION_WHO_STATE ?a1 (length ws) [] =
        ParseMode_loop ?s PARSE_MODE_ACTION_PERM_STATE ?a2 (length ws + 1) []"
    using c cat by (subst who_to_op; (subst op_step)?) auto
  have 3: "ParseMode_loop ((ws @ [c]) @ ps @ []) PARSE_MODE_ACTION_PERM_STATE ?a2
          (length (ws @ [c])) [] =
        ParseMode_loop ((ws @ [c]) @ ps @ []) PARSE_MODE_ACTION_PERM_STATE ?a3
          (length (ws @ [c]) + length ps) []"
    by (rule perm_phase [OF ps])
  have 4: "ParseMode_loop ?s PARSE_MODE_ACTION_PERM_STATE ?a3 (length ?s) [] =
        Some ([] @ [finished_action ?a3])"
    by (rule perm_at_end)
  show ?thesis
    using 1 2 3 4 by (simp add: INIT_MODE_CHANGE_ACTION_def clause_action_def)
qed

text \<open>
  The list the loop returns extends the list it was given, and is not empty when the
  loop is entered with \<open>i\<close> inside the string or with a list that is not empty.
\<close>

lemma loop_nonempty:
  "ParseMode_loop s st a i acts = Some r \<Longrightarrow> i \<le> length s \<or> acts \<noteq> [] \<Longrightarrow> r \<noteq> []"
proof (induction s st a i acts rule: ParseMode_loop.induct)
  case (1 s st a i acts)
  show ?case
  proof (cases "i \<le> length s")
    case False
    with "1.prems" show ?thesis
      by (simp add: ParseMode_loop.simps)
  next
    case True
    have lt: "char_at s i \<noteq> CHR 0x00 \<Longrightarrow> i + 1 \<le> length s"
      using True by (auto simp: char_at_def split: if_splits)
    show ?thesis
      using "1.prems"(1) True
      apply (subst (asm) ParseMode_loop.simps)
      apply (simp only: if_True Let_def)
      apply (cases st)
      subgoal using "1.IH"(1-5) lt by (auto split: if_splits)
      subgoal using "1.IH"(6-8) lt by (auto split: if_splits)
      subgoal using "1.IH"(9-13) lt by (auto split: if_splits)
      subgoal using "1.IH"(14-17) lt by (auto split: if_splits)
      subgoal using "1.IH"(18) by (auto split: if_splits simp: Let_def)
      done
  qed
qed

lemma loop_extends:
  "ParseMode_loop s st a i acts = Some r \<Longrightarrow> \<exists>more. r = acts @ more"
proof (induction s st a i acts rule: ParseMode_loop.induct)
  case (1 s st a i acts)
  show ?case
  proof (cases "i \<le> length s")
    case False
    with "1.prems" show ?thesis
      by (simp add: ParseMode_loop.simps)
  next
    case True
    show ?thesis
      using "1.prems"(1) True
      apply (subst (asm) ParseMode_loop.simps)
      apply (simp only: if_True Let_def)
      apply (cases st)
      subgoal using "1.IH"(1-5) by (auto split: if_splits)
      subgoal using "1.IH"(6-8) by (auto split: if_splits)
      subgoal using "1.IH"(9-13) by (auto split: if_splits)
      subgoal using "1.IH"(14-17) by (auto split: if_splits)
      subgoal using "1.IH"(18) by (fastforce split: if_splits simp: Let_def)
      done
  qed
qed

lemma ParseMode_nonempty: "ParseMode s = Some acts \<Longrightarrow> acts \<noteq> []"
  using loop_nonempty [of s PARSE_MODE_ACTION_WHO_STATE INIT_MODE_CHANGE_ACTION 0 "[]" acts]
  by (auto simp: ParseMode_def StringCchLengthW_def split: if_splits)

section \<open>Parsing a mode string\<close>

text \<open>
  C4. \<^verbatim>\<open>ParseOctalMode\<close> accepts exactly the strings of three or four characters that
  are all octal digits. For three digits the mask is the octal value of the string; for
  four digits the first is dropped and the mask is the octal value of the other three.
  When the octal parser rejects a string the result is that of the symbolic parser, and
  a string that both reject makes the parse fail. A successful symbolic parse yields a
  list of actions that is not empty.
\<close>

theorem octal_then_symbolic_parsing:
  "(ParseOctalMode s \<noteq> None) = ((length s = 3 \<or> length s = 4) \<and> list_all is_octal_digit s)
   \<and> (list_all is_octal_digit [a, b, c] \<longrightarrow>
        ParseOctalMode [a, b, c] =
          Some (oct (nat (digit_value a)) (nat (digit_value b)) (nat (digit_value c))))
   \<and> (list_all is_octal_digit [z, a, b, c] \<longrightarrow>
        ParseOctalMode [z, a, b, c] =
          Some (oct (nat (digit_value a)) (nat (digit_value b)) (nat (digit_value c))))
   \<and> (ParseOctalMode s = None \<longrightarrow>
        parse_mask_string s = map_option (\<lambda>actions. (0, actions)) (ParseMode s))
   \<and> (ParseOctalMode s = None \<and> ParseMode s = None \<longrightarrow> parse_mask_string s = None)
   \<and> (ParseMode s = Some acts \<longrightarrow> acts \<noteq> [])"
proof -
  have d: "ParseOctalMode s = None \<longrightarrow>
        parse_mask_string s = map_option (\<lambda>actions. (0, actions)) (ParseMode s)"
    by (simp add: parse_mask_string_def split: option.splits)
  have e: "ParseOctalMode s = None \<and> ParseMode s = None \<longrightarrow> parse_mask_string s = None"
    by (simp add: parse_mask_string_def)
  show ?thesis
    using ParseOctalMode_accepts [of s] ParseOctalMode_three [of a b c]
      ParseOctalMode_four [of z a b c] d e ParseMode_nonempty [of s acts]
    by blast
qed

theorem octal_then_symbolic_parsing_witness:
  "ParseOctalMode ''755'' = Some (oct 7 5 5)
   \<and> ParseOctalMode ''0755'' = Some (oct 7 5 5)
   \<and> ParseOctalMode ''75'' = None
   \<and> ParseOctalMode ''758'' = None
   \<and> parse_mask_string ''u+x'' =
       Some (0, [\<lparr>who = CHMOD_WHO_USER, op = CHMOD_OP_PLUS, perm = CHMOD_PERM_X,
                  ref = CHMOD_WHO_NONE\<rparr>])
   \<and> parse_mask_string ''zz'' = None"
proof -
  note t = octal_then_symbolic_parsing
  have 1: "ParseOctalMode ''755'' = Some (oct 7 5 5)"
    using t [where a = "CHR ''7''" and b = "CHR ''5''" and c = "CHR ''5''"]
    by (simp add: is_octal_digit_def digit_value_def)
  have 2: "ParseOctalMode ''0755'' = Some (oct 7 5 5)"
    using t [where z = "CHR ''0''" and a = "CHR ''7''" and b = "CHR ''5''" and c = "CHR ''5''"]
    by (simp add: is_octal_digit_def digit_value_def)
  have 3: "ParseOctalMode ''75'' = None"
    using t [where s = "''75''"] by simp
  have 4: "ParseOctalMode ''758'' = None"
    using t [where s = "''758''"] by (simp add: is_octal_digit_def)
  have u: "ParseOctalMode ''u+x'' = None"
    using t [where s = "''u+x''"] by (simp add: is_octal_digit_def)
  have pu: "ParseMode ''u+x'' = Some [\<lparr>who = CHMOD_WHO_USER, op = CHMOD_OP_PLUS,
      perm = CHMOD_PERM_X, ref = CHMOD_WHO_NONE\<rparr>]"
    by (simp add: parse_eval chmod_consts)
  have 5: "parse_mask_string ''u+x'' =
       Some (0, [\<lparr>who = CHMOD_WHO_USER, op = CHMOD_OP_PLUS, perm = CHMOD_PERM_X,
                  ref = CHMOD_WHO_NONE\<rparr>])"
    using t [where s = "''u+x''"] u pu by simp
  have z: "ParseOctalMode ''zz'' = None"
    using t [where s = "''zz''"] by simp
  have pz: "ParseMode ''zz'' = None"
    by (simp add: parse_eval chmod_consts)
  have 6: "parse_mask_string ''zz'' = None"
    using t [where s = "''zz''"] z pz by simp
  from 1 2 3 4 5 6 show ?thesis by simp
qed

text \<open>
  C6. In the END state the current action is stored at the end of the list, with \<open>all\<close>
  for an empty \<open>who\<close> and its other fields as they are. When the character at \<open>i\<close> is
  an operator, the parser goes on in the OP state at the same character with a fresh
  action whose \<open>who\<close> is that of the action just stored; at a comma it goes on behind
  the comma in the WHO state with the initial action; at the end of the string it
  returns the list. The list the loop returns always extends the list built so far, so
  the actions stand in the order of the clauses.
\<close>

theorem end_state_finishes_action:
  assumes "i \<le> length s"
  shows
  "(char_at s i \<in> {CHR ''+'', CHR ''-'', CHR ''=''} \<longrightarrow>
      ParseMode_loop s PARSE_MODE_ACTION_END_STATE a i acts =
        ParseMode_loop s PARSE_MODE_ACTION_OP_STATE
          (INIT_MODE_CHANGE_ACTION\<lparr>who := who (finished_action a)\<rparr>) i
          (acts @ [finished_action a]))
   \<and> (char_at s i = CHR '','' \<longrightarrow>
      ParseMode_loop s PARSE_MODE_ACTION_END_STATE a i acts =
        ParseMode_loop s PARSE_MODE_ACTION_WHO_STATE INIT_MODE_CHANGE_ACTION (i + 1)
          (acts @ [finished_action a]))
   \<and> (i = length s \<longrightarrow>
      ParseMode_loop s PARSE_MODE_ACTION_END_STATE a i acts = Some (acts @ [finished_action a]))
   \<and> who (finished_action a) = (if who a = CHMOD_WHO_NONE then CHMOD_WHO_ALL else who a)
   \<and> op (finished_action a) = op a
   \<and> perm (finished_action a) = perm a
   \<and> ref (finished_action a) = ref a
   \<and> (ParseMode_loop s st a i acts = Some r \<longrightarrow> (\<exists>more. r = acts @ more))"
proof -
  have 1: "char_at s i \<in> {CHR ''+'', CHR ''-'', CHR ''=''} \<longrightarrow>
      ParseMode_loop s PARSE_MODE_ACTION_END_STATE a i acts =
        ParseMode_loop s PARSE_MODE_ACTION_OP_STATE
          (INIT_MODE_CHANGE_ACTION\<lparr>who := who (finished_action a)\<rparr>) i
          (acts @ [finished_action a])"
  proof
    assume c: "char_at s i \<in> {CHR ''+'', CHR ''-'', CHR ''=''}"
    then have n: "char_at s i \<notin> {CHR ''a'', CHR ''u'', CHR ''g'', CHR ''o''}" by auto
    show "ParseMode_loop s PARSE_MODE_ACTION_END_STATE a i acts =
        ParseMode_loop s PARSE_MODE_ACTION_OP_STATE
          (INIT_MODE_CHANGE_ACTION\<lparr>who := who (finished_action a)\<rparr>) i
          (acts @ [finished_action a])"
      using end_operator [OF assms c] who_to_op [OF assms n] by simp
  qed
  have 2: "char_at s i = CHR '','' \<longrightarrow>
      ParseMode_loop s PARSE_MODE_ACTION_END_STATE a i acts =
        ParseMode_loop s PARSE_MODE_ACTION_WHO_STATE INIT_MODE_CHANGE_ACTION (i + 1)
          (acts @ [finished_action a])"
    using end_comma [OF assms] by blast
  have 3: "i = length s \<longrightarrow>
      ParseMode_loop s PARSE_MODE_ACTION_END_STATE a i acts = Some (acts @ [finished_action a])"
    by (simp add: end_nul char_at_end loop_exit)
  have 4: "who (finished_action a) = (if who a = CHMOD_WHO_NONE then CHMOD_WHO_ALL else who a)"
    "op (finished_action a) = op a" "perm (finished_action a) = perm a"
    "ref (finished_action a) = ref a"
    by (simp_all add: finished_action_def)
  have 5: "ParseMode_loop s st a i acts = Some r \<longrightarrow> (\<exists>more. r = acts @ more)"
    using loop_extends by blast
  from 1 2 3 4 5 show ?thesis by blast
qed

theorem end_state_finishes_action_witness:
  "ParseMode_loop ''u+r-w'' PARSE_MODE_ACTION_END_STATE
      \<lparr>who = CHMOD_WHO_USER, op = CHMOD_OP_PLUS, perm = CHMOD_PERM_R, ref = CHMOD_WHO_NONE\<rparr> 3 []
    = Some [\<lparr>who = CHMOD_WHO_USER, op = CHMOD_OP_PLUS, perm = CHMOD_PERM_R, ref = CHMOD_WHO_NONE\<rparr>,
            \<lparr>who = CHMOD_WHO_USER, op = CHMOD_OP_MINUS, perm = CHMOD_PERM_W, ref = CHMOD_WHO_NONE\<rparr>]
   \<and> ParseMode_loop ''+r,g-w'' PARSE_MODE_ACTION_END_STATE
      \<lparr>who = CHMOD_WHO_NONE, op = CHMOD_OP_PLUS, perm = CHMOD_PERM_R, ref = CHMOD_WHO_NONE\<rparr> 2 []
    = Some [\<lparr>who = CHMOD_WHO_ALL, op = CHMOD_OP_PLUS, perm = CHMOD_PERM_R, ref = CHMOD_WHO_NONE\<rparr>,
            \<lparr>who = CHMOD_WHO_GROUP, op = CHMOD_OP_MINUS, perm = CHMOD_PERM_W, ref = CHMOD_WHO_NONE\<rparr>]
   \<and> ParseMode_loop ''o=r'' PARSE_MODE_ACTION_END_STATE
      \<lparr>who = CHMOD_WHO_OTHER, op = CHMOD_OP_EQUAL, perm = CHMOD_PERM_R, ref = CHMOD_WHO_NONE\<rparr> 3 []
    = Some [\<lparr>who = CHMOD_WHO_OTHER, op = CHMOD_OP_EQUAL, perm = CHMOD_PERM_R, ref = CHMOD_WHO_NONE\<rparr>]
   \<and> ParseMode ''u+r-w''
    = Some [\<lparr>who = CHMOD_WHO_USER, op = CHMOD_OP_PLUS, perm = CHMOD_PERM_R, ref = CHMOD_WHO_NONE\<rparr>,
            \<lparr>who = CHMOD_WHO_USER, op = CHMOD_OP_MINUS, perm = CHMOD_PERM_W, ref = CHMOD_WHO_NONE\<rparr>]"
proof -
  note t = end_state_finishes_action
  have l1: "(3::nat) \<le> length ''u+r-w''" by simp
  have l2: "(2::nat) \<le> length ''+r,g-w''" by simp
  have l3: "(3::nat) \<le> length ''o=r''" by simp
  have 1: "ParseMode_loop ''u+r-w'' PARSE_MODE_ACTION_END_STATE
      \<lparr>who = CHMOD_WHO_USER, op = CHMOD_OP_PLUS, perm = CHMOD_PERM_R, ref = CHMOD_WHO_NONE\<rparr> 3 []
    = Some [\<lparr>who = CHMOD_WHO_USER, op = CHMOD_OP_PLUS, perm = CHMOD_PERM_R, ref = CHMOD_WHO_NONE\<rparr>,
            \<lparr>who = CHMOD_WHO_USER, op = CHMOD_OP_MINUS, perm = CHMOD_PERM_W, ref = CHMOD_WHO_NONE\<rparr>]"
    using t [OF l1, where a = "\<lparr>who = CHMOD_WHO_USER, op = CHMOD_OP_PLUS, perm = CHMOD_PERM_R,
        ref = CHMOD_WHO_NONE\<rparr>" and acts = "[]"]
    by (simp add: parse_eval chmod_consts finished_action_def)
  have 2: "ParseMode_loop ''+r,g-w'' PARSE_MODE_ACTION_END_STATE
      \<lparr>who = CHMOD_WHO_NONE, op = CHMOD_OP_PLUS, perm = CHMOD_PERM_R, ref = CHMOD_WHO_NONE\<rparr> 2 []
    = Some [\<lparr>who = CHMOD_WHO_ALL, op = CHMOD_OP_PLUS, perm = CHMOD_PERM_R, ref = CHMOD_WHO_NONE\<rparr>,
            \<lparr>who = CHMOD_WHO_GROUP, op = CHMOD_OP_MINUS, perm = CHMOD_PERM_W, ref = CHMOD_WHO_NONE\<rparr>]"
    using t [OF l2, where a = "\<lparr>who = CHMOD_WHO_NONE, op = CHMOD_OP_PLUS, perm = CHMOD_PERM_R,
        ref = CHMOD_WHO_NONE\<rparr>" and acts = "[]"]
    by (simp add: parse_eval chmod_consts finished_action_def)
  have 3: "ParseMode_loop ''o=r'' PARSE_MODE_ACTION_END_STATE
      \<lparr>who = CHMOD_WHO_OTHER, op = CHMOD_OP_EQUAL, perm = CHMOD_PERM_R, ref = CHMOD_WHO_NONE\<rparr> 3 []
    = Some [\<lparr>who = CHMOD_WHO_OTHER, op = CHMOD_OP_EQUAL, perm = CHMOD_PERM_R, ref = CHMOD_WHO_NONE\<rparr>]"
    using t [OF l3, where a = "\<lparr>who = CHMOD_WHO_OTHER, op = CHMOD_OP_EQUAL, perm = CHMOD_PERM_R,
        ref = CHMOD_WHO_NONE\<rparr>" and acts = "[]"]
    by (simp add: chmod_consts finished_action_def)
  have 4: "ParseMode ''u+r-w''
    = Some [\<lparr>who = CHMOD_WHO_USER, op = CHMOD_OP_PLUS, perm = CHMOD_PERM_R, ref = CHMOD_WHO_NONE\<rparr>,
            \<lparr>who = CHMOD_WHO_USER, op = CHMOD_OP_MINUS, perm = CHMOD_PERM_W, ref = CHMOD_WHO_NONE\<rparr>]"
    by (simp add: parse_eval chmod_consts)
  from 1 2 3 4 show ?thesis by simp
qed

lemma char_at_append: "char_at (xs @ ys) (length xs) = char_at ys 0"
  by (cases ys) (simp_all add: char_at_def)

lemma literal_clause_in_context:
  assumes ws: "set ws \<subseteq> {CHR ''a'', CHR ''u'', CHR ''g'', CHR ''o''}"
      and c: "c \<in> {CHR ''+'', CHR ''-'', CHR ''=''}"
      and ps: "set ps \<subseteq> {CHR ''r'', CHR ''w'', CHR ''x'', CHR ''X''}"
      and post: "char_at post 0 \<notin>
                   {CHR ''r'', CHR ''w'', CHR ''x'', CHR ''X'', CHR ''u'', CHR ''g'', CHR ''o''}"
  shows "ParseMode_loop (pre @ ws @ c # ps @ post) PARSE_MODE_ACTION_WHO_STATE
           (INIT_MODE_CHANGE_ACTION\<lparr>who := w0\<rparr>) (length pre) acts =
         ParseMode_loop (pre @ ws @ c # ps @ post) PARSE_MODE_ACTION_END_STATE
           \<lparr>who = foldl who_letter w0 ws, op = op_letter c,
            perm = foldl perm_letter CHMOD_PERM_NA ps, ref = CHMOD_WHO_NONE\<rparr>
           (length pre + length ws + 1 + length ps) acts"
proof -
  let ?s = "pre @ ws @ c # ps @ post"
  let ?a0 = "INIT_MODE_CHANGE_ACTION\<lparr>who := w0\<rparr>"
  let ?a1 = "?a0\<lparr>who := foldl who_letter (who ?a0) ws\<rparr>"
  let ?a2 = "?a1\<lparr>op := op_letter c\<rparr>"
  let ?a3 = "?a2\<lparr>perm := foldl perm_letter (perm ?a2) ps\<rparr>"
  let ?j = "length pre + length ws"
  let ?k = "length pre + length ws + 1 + length ps"
  have 1: "ParseMode_loop ?s PARSE_MODE_ACTION_WHO_STATE ?a0 (length pre) acts =
        ParseMode_loop ?s PARSE_MODE_ACTION_WHO_STATE ?a1 ?j acts"
    using who_phase [OF ws, of pre "c # ps @ post" ?a0 acts] by simp
  have cat: "char_at ?s ?j = c"
    using char_at_mid [of "pre @ ws" c "ps @ post"] by simp
  have j: "?j \<le> length ?s" by simp
  have 2: "ParseMode_loop ?s PARSE_MODE_ACTION_WHO_STATE ?a1 ?j acts =
        ParseMode_loop ?s PARSE_MODE_ACTION_PERM_STATE ?a2 (?j + 1) acts"
  proof -
    have n: "char_at ?s ?j \<notin> {CHR ''a'', CHR ''u'', CHR ''g'', CHR ''o''}"
      using c cat by auto
    have o: "char_at ?s ?j \<in> {CHR ''+'', CHR ''-'', CHR ''=''}"
      using c cat by simp
    show ?thesis
      using who_to_op [OF j n, of ?a1 acts] op_step [OF j o, of ?a1 acts] cat by simp
  qed
  have 3: "ParseMode_loop ((pre @ ws @ [c]) @ ps @ post) PARSE_MODE_ACTION_PERM_STATE ?a2
          (length (pre @ ws @ [c])) acts =
        ParseMode_loop ((pre @ ws @ [c]) @ ps @ post) PARSE_MODE_ACTION_PERM_STATE ?a3
          (length (pre @ ws @ [c]) + length ps) acts"
    by (rule perm_phase [OF ps])
  have cend: "char_at ?s ?k = char_at post 0"
    using char_at_append [of "pre @ ws @ c # ps" post] by (simp add: add.assoc)
  have k: "?k \<le> length ?s" by simp
  have 4: "ParseMode_loop ?s PARSE_MODE_ACTION_PERM_STATE ?a3 ?k acts =
        ParseMode_loop ?s PARSE_MODE_ACTION_END_STATE ?a3 ?k acts"
  proof -
    have n1: "char_at ?s ?k \<notin> {CHR ''r'', CHR ''w'', CHR ''x'', CHR ''X''}"
      using post cend by auto
    have n2: "char_at ?s ?k \<notin> {CHR ''u'', CHR ''g'', CHR ''o''}"
      using post cend by auto
    show ?thesis
      using perm_to_ref [OF k n1, of ?a3 acts] ref_to_end [OF k n2, of ?a3 acts] by simp
  qed
  have a3: "?a3 = \<lparr>who = foldl who_letter w0 ws, op = op_letter c,
            perm = foldl perm_letter CHMOD_PERM_NA ps, ref = CHMOD_WHO_NONE\<rparr>"
    by (simp add: INIT_MODE_CHANGE_ACTION_def)
  show ?thesis
    using 1 2 3 4 by (simp add: a3 [symmetric])
qed

text \<open>
  C10. A clause of \<open>who\<close> letters, an operator and \<open>perm\<close> letters that is not
  followed by a further permission or reference letter is read, wherever it stands in
  the mode string, into an action whose \<open>ref\<close> is \<^verbatim>\<open>CHMOD_WHO_NONE\<close>, and such a
  clause alone parses to that one action. The assertion on \<open>ref\<close> at the head of
  \<^verbatim>\<open>ComputeNewMode\<close> fails for every call with the reference \<^verbatim>\<open>CHMOD_WHO_NONE\<close>: with
  assertions enabled the function aborts, with assertions ignored it returns, and the
  code after the assertion handles this reference (with no permission either, the old
  mode is returned).
\<close>

theorem literal_clause_fails_the_assertion:
  assumes "set ws \<subseteq> {CHR ''a'', CHR ''u'', CHR ''g'', CHR ''o''}"
      and "c \<in> {CHR ''+'', CHR ''-'', CHR ''=''}"
      and "set ps \<subseteq> {CHR ''r'', CHR ''w'', CHR ''x'', CHR ''X''}"
      and "char_at post 0 \<notin>
             {CHR ''r'', CHR ''w'', CHR ''x'', CHR ''X'', CHR ''u'', CHR ''g'', CHR ''o''}"
  shows "ParseMode_loop (pre @ ws @ c # ps @ post) PARSE_MODE_ACTION_WHO_STATE
           (INIT_MODE_CHANGE_ACTION\<lparr>who := w0\<rparr>) (length pre) acts =
         ParseMode_loop (pre @ ws @ c # ps @ post) PARSE_MODE_ACTION_END_STATE
           \<lparr>who = foldl who_letter w0 ws, op = op_letter c,
            perm = foldl perm_letter CHMOD_PERM_NA ps, ref = CHMOD_WHO_NONE\<rparr>
           (length pre + length ws + 1 + length ps) acts
     \<and> (length (ws @ c # ps) < STRSAFE_MAX_CCH \<longrightarrow>
          ParseMode (ws @ c # ps) = Some [clause_action ws c ps])
     \<and> ref (clause_action ws c ps) = CHMOD_WHO_NONE
     \<and> ComputeNewMode_asserts opr CHMOD_WHO_NONE = False
     \<and> ComputeNewMode_checked old w opr p CHMOD_WHO_NONE = None
     \<and> ComputeNewMode old w opr CHMOD_PERM_NA CHMOD_WHO_NONE = old"
proof -
  have 0: "ParseMode_loop (pre @ ws @ c # ps @ post) PARSE_MODE_ACTION_WHO_STATE
           (INIT_MODE_CHANGE_ACTION\<lparr>who := w0\<rparr>) (length pre) acts =
         ParseMode_loop (pre @ ws @ c # ps @ post) PARSE_MODE_ACTION_END_STATE
           \<lparr>who = foldl who_letter w0 ws, op = op_letter c,
            perm = foldl perm_letter CHMOD_PERM_NA ps, ref = CHMOD_WHO_NONE\<rparr>
           (length pre + length ws + 1 + length ps) acts"
    by (rule literal_clause_in_context [OF assms])
  have 1: "length (ws @ c # ps) < STRSAFE_MAX_CCH \<longrightarrow>
          ParseMode (ws @ c # ps) = Some [clause_action ws c ps]"
    using literal_clause [OF assms(1-3)]
    by (simp add: ParseMode_def StringCchLengthW_def)
  have 2: "ref (clause_action ws c ps) = CHMOD_WHO_NONE"
    by (simp add: clause_action_def finished_action_def)
  have 3: "ComputeNewMode_asserts opr CHMOD_WHO_NONE = False"
    by (simp add: ComputeNewMode_asserts_def chmod_consts)
  have 4: "ComputeNewMode_checked old w opr p CHMOD_WHO_NONE = None"
    by (simp add: ComputeNewMode_checked_def 3)
  have 5: "ComputeNewMode old w opr CHMOD_PERM_NA CHMOD_WHO_NONE = old"
    by (simp add: ComputeNewMode_def)
  from 0 1 2 3 4 5 show ?thesis by blast
qed

theorem literal_clause_fails_the_assertion_witness:
  "ParseMode ''u+r'' =
     Some [\<lparr>who = CHMOD_WHO_USER, op = CHMOD_OP_PLUS, perm = CHMOD_PERM_R, ref = CHMOD_WHO_NONE\<rparr>]
   \<and> ParseMode_loop ''u=rwx,g=rx,o='' PARSE_MODE_ACTION_WHO_STATE INIT_MODE_CHANGE_ACTION 6
        [\<lparr>who = CHMOD_WHO_USER, op = CHMOD_OP_EQUAL,
           perm = CHMOD_PERM_R OR CHMOD_PERM_W OR CHMOD_PERM_X, ref = CHMOD_WHO_NONE\<rparr>] =
      ParseMode_loop ''u=rwx,g=rx,o='' PARSE_MODE_ACTION_END_STATE
        \<lparr>who = CHMOD_WHO_GROUP, op = CHMOD_OP_EQUAL,
          perm = CHMOD_PERM_R OR CHMOD_PERM_X, ref = CHMOD_WHO_NONE\<rparr> 10
        [\<lparr>who = CHMOD_WHO_USER, op = CHMOD_OP_EQUAL,
           perm = CHMOD_PERM_R OR CHMOD_PERM_W OR CHMOD_PERM_X, ref = CHMOD_WHO_NONE\<rparr>]
   \<and> ComputeNewMode_checked (oct 6 4 4) CHMOD_WHO_USER CHMOD_OP_PLUS CHMOD_PERM_R CHMOD_WHO_NONE
       = None
   \<and> ComputeNewMode (oct 6 4 4) CHMOD_WHO_USER CHMOD_OP_PLUS CHMOD_PERM_R CHMOD_WHO_NONE
       = oct 6 4 4"
proof -
  note t = literal_clause_fails_the_assertion
  have a: "set ''u'' \<subseteq> {CHR ''a'', CHR ''u'', CHR ''g'', CHR ''o''}" by simp
  have b: "CHR ''+'' \<in> {CHR ''+'', CHR ''-'', CHR ''=''}" by simp
  have c: "set ''r'' \<subseteq> {CHR ''r'', CHR ''w'', CHR ''x'', CHR ''X''}" by simp
  have d: "char_at [] 0 \<notin>
             {CHR ''r'', CHR ''w'', CHR ''x'', CHR ''X'', CHR ''u'', CHR ''g'', CHR ''o''}"
    by (simp add: char_at_def)
  have e: "clause_action ''u'' CHR ''+'' ''r'' =
     \<lparr>who = CHMOD_WHO_USER, op = CHMOD_OP_PLUS, perm = CHMOD_PERM_R, ref = CHMOD_WHO_NONE\<rparr>"
    by (simp add: clause_action_def finished_action_def who_letter_def perm_letter_def
        op_letter_def chmod_consts)
  have 1: "ParseMode ''u+r'' =
     Some [\<lparr>who = CHMOD_WHO_USER, op = CHMOD_OP_PLUS, perm = CHMOD_PERM_R, ref = CHMOD_WHO_NONE\<rparr>]"
    using t [OF a b c d, THEN conjunct2, THEN conjunct1] e
    by (simp add: STRSAFE_MAX_CCH_def)
  have 2: "ComputeNewMode_checked (oct 6 4 4) CHMOD_WHO_USER CHMOD_OP_PLUS CHMOD_PERM_R
      CHMOD_WHO_NONE = None"
    using t [OF a b c d] by blast
  have a': "set ''g'' \<subseteq> {CHR ''a'', CHR ''u'', CHR ''g'', CHR ''o''}" by simp
  have b': "CHR ''='' \<in> {CHR ''+'', CHR ''-'', CHR ''=''}" by simp
  have c': "set ''rx'' \<subseteq> {CHR ''r'', CHR ''w'', CHR ''x'', CHR ''X''}" by simp
  have d': "char_at '',o='' 0 \<notin>
             {CHR ''r'', CHR ''w'', CHR ''x'', CHR ''X'', CHR ''u'', CHR ''g'', CHR ''o''}"
    by (simp add: char_at_def)
  have 3: "ParseMode_loop ''u=rwx,g=rx,o='' PARSE_MODE_ACTION_WHO_STATE INIT_MODE_CHANGE_ACTION 6
        [\<lparr>who = CHMOD_WHO_USER, op = CHMOD_OP_EQUAL,
           perm = CHMOD_PERM_R OR CHMOD_PERM_W OR CHMOD_PERM_X, ref = CHMOD_WHO_NONE\<rparr>] =
      ParseMode_loop ''u=rwx,g=rx,o='' PARSE_MODE_ACTION_END_STATE
        \<lparr>who = CHMOD_WHO_GROUP, op = CHMOD_OP_EQUAL,
          perm = CHMOD_PERM_R OR CHMOD_PERM_X, ref = CHMOD_WHO_NONE\<rparr> 10
        [\<lparr>who = CHMOD_WHO_USER, op = CHMOD_OP_EQUAL,
           perm = CHMOD_PERM_R OR CHMOD_PERM_W OR CHMOD_PERM_X, ref = CHMOD_WHO_NONE\<rparr>]"
    using t [where pre = "''u=rwx,''" and ?w0.0 = CHMOD_WHO_NONE, OF a' b' c' d', THEN conjunct1]
    by (simp add: INIT_MODE_CHANGE_ACTION_def who_letter_def perm_letter_def op_letter_def
        chmod_consts eval_nat_numeral)
  have 4: "ComputeNewMode (oct 6 4 4) CHMOD_WHO_USER CHMOD_OP_PLUS CHMOD_PERM_R CHMOD_WHO_NONE
       = oct 6 4 4"
    by (simp add: compute_defs oct_def chmod_consts)
  from 1 2 3 4 show ?thesis by simp
qed

lemma finished_wellformed:
  "pending_ok PARSE_MODE_ACTION_END_STATE a \<Longrightarrow> wellformed_action (finished_action a)"
  by (auto simp: pending_ok_def wellformed_action_def finished_action_def chmod_consts)

lemma loop_wellformed:
  "ParseMode_loop s st a i acts = Some r \<Longrightarrow> pending_ok st a \<Longrightarrow>
   list_all wellformed_action acts \<Longrightarrow> list_all wellformed_action r"
proof (induction s st a i acts rule: ParseMode_loop.induct)
  case (1 s st a i acts)
  show ?case
  proof (cases "i \<le> length s")
    case False
    with "1.prems" show ?thesis
      by (simp add: ParseMode_loop.simps)
  next
    case True
    have fin: "st = PARSE_MODE_ACTION_END_STATE \<Longrightarrow>
       list_all wellformed_action (acts @ [finished_action a])"
      using "1.prems"(2,3) finished_wellformed by simp
    have init: "\<And>w. pending_ok PARSE_MODE_ACTION_WHO_STATE (INIT_MODE_CHANGE_ACTION\<lparr>who := w\<rparr>)"
      "pending_ok PARSE_MODE_ACTION_WHO_STATE INIT_MODE_CHANGE_ACTION"
      by (simp_all add: pending_ok_def INIT_MODE_CHANGE_ACTION_def)
    show ?thesis
      using "1.prems"(1) True
      apply (subst (asm) ParseMode_loop.simps)
      apply (simp only: if_True Let_def)
      apply (cases st)
      subgoal using "1.IH"(1-5) "1.prems"(2,3) by (auto split: if_splits simp: pending_ok_def)
      subgoal using "1.IH"(6-8) "1.prems"(2,3) by (auto split: if_splits simp: pending_ok_def)
      subgoal using "1.IH"(9-13) "1.prems"(2,3) by (auto split: if_splits simp: pending_ok_def)
      subgoal using "1.IH"(14-17) "1.prems"(2,3) by (auto split: if_splits simp: pending_ok_def)
      subgoal using "1.IH"(18) fin init
        by (auto split: if_splits simp: Let_def finished_action_def)
      done
  qed
qed

text \<open>
  X5. Every action of a successful symbolic parse selects some class, carries one of
  the three operators, and has a reference that is empty or a single class.
\<close>

theorem parsed_actions_wellformed:
  "ParseMode s = Some acts \<Longrightarrow> list_all wellformed_action acts"
  using loop_wellformed [of s PARSE_MODE_ACTION_WHO_STATE INIT_MODE_CHANGE_ACTION 0 "[]" acts]
  by (auto simp: ParseMode_def StringCchLengthW_def pending_ok_def INIT_MODE_CHANGE_ACTION_def
      split: if_splits)

theorem parsed_actions_wellformed_witness:
  "list_all wellformed_action
     [\<lparr>who = CHMOD_WHO_USER, op = CHMOD_OP_PLUS, perm = CHMOD_PERM_R, ref = CHMOD_WHO_NONE\<rparr>,
      \<lparr>who = CHMOD_WHO_USER, op = CHMOD_OP_MINUS, perm = CHMOD_PERM_W, ref = CHMOD_WHO_NONE\<rparr>]"
proof -
  have "ParseMode ''u+r-w''
    = Some [\<lparr>who = CHMOD_WHO_USER, op = CHMOD_OP_PLUS, perm = CHMOD_PERM_R, ref = CHMOD_WHO_NONE\<rparr>,
            \<lparr>who = CHMOD_WHO_USER, op = CHMOD_OP_MINUS, perm = CHMOD_PERM_W, ref = CHMOD_WHO_NONE\<rparr>]"
    by (simp add: parse_eval chmod_consts)
  then show ?thesis
    by (rule parsed_actions_wellformed)
qed

section \<open>Resolving a mode string, and the command line\<close>

lemma ChangeFileMode_final_mask:
  "parse_mask_string s = Some (m, acts) \<Longrightarrow>
   ChangeFileMode fi q byMask m acts =
     (case final_mask s fi q of Some x \<Rightarrow> byMask x | None \<Rightarrow> False)"
  by (simp add: ChangeFileMode_def ChangeFileModeByActions_def final_mask_def)

lemma parse_u_plus_x:
  "parse_mask_string ''u+x'' =
     Some (0, [\<lparr>who = CHMOD_WHO_USER, op = CHMOD_OP_PLUS, perm = CHMOD_PERM_X,
                ref = CHMOD_WHO_NONE\<rparr>])"
  by (simp add: parse_eval chmod_consts)

lemma parse_go_minus_w:
  "parse_mask_string ''go-w'' =
     Some (0, [\<lparr>who = CHMOD_WHO_GROUP OR CHMOD_WHO_OTHER, op = CHMOD_OP_MINUS,
                perm = CHMOD_PERM_W, ref = CHMOD_WHO_NONE\<rparr>])"
  by (simp add: parse_eval chmod_consts)

lemma parse_a_equal_r:
  "parse_mask_string ''a=r'' =
     Some (0, [\<lparr>who = CHMOD_WHO_ALL, op = CHMOD_OP_EQUAL, perm = CHMOD_PERM_R,
                ref = CHMOD_WHO_NONE\<rparr>])"
  by (simp add: parse_eval chmod_consts)

lemma parse_0755: "parse_mask_string ''0755'' = Some (oct 7 5 5, [])"
  by (simp add: parse_eval chmod_consts oct_def)

lemma parse_three_clauses:
  "ParseMode ''u=rwx,g=rx,o='' = Some
   [\<lparr>who = CHMOD_WHO_USER, op = CHMOD_OP_EQUAL,
      perm = CHMOD_PERM_R OR CHMOD_PERM_W OR CHMOD_PERM_X, ref = CHMOD_WHO_NONE\<rparr>,
    \<lparr>who = CHMOD_WHO_GROUP, op = CHMOD_OP_EQUAL,
      perm = CHMOD_PERM_R OR CHMOD_PERM_X, ref = CHMOD_WHO_NONE\<rparr>,
    \<lparr>who = CHMOD_WHO_OTHER, op = CHMOD_OP_EQUAL,
      perm = CHMOD_PERM_NA, ref = CHMOD_WHO_NONE\<rparr>]"
  by (simp add: parse_eval chmod_consts)

lemma parse_mask_three_clauses:
  "parse_mask_string ''u=rwx,g=rx,o='' = Some (0,
   [\<lparr>who = CHMOD_WHO_USER, op = CHMOD_OP_EQUAL,
      perm = CHMOD_PERM_R OR CHMOD_PERM_W OR CHMOD_PERM_X, ref = CHMOD_WHO_NONE\<rparr>,
    \<lparr>who = CHMOD_WHO_GROUP, op = CHMOD_OP_EQUAL,
      perm = CHMOD_PERM_R OR CHMOD_PERM_X, ref = CHMOD_WHO_NONE\<rparr>,
    \<lparr>who = CHMOD_WHO_OTHER, op = CHMOD_OP_EQUAL,
      perm = CHMOD_PERM_NA, ref = CHMOD_WHO_NONE\<rparr>])"
proof -
  have "ParseOctalMode ''u=rwx,g=rx,o='' = None"
    by (simp add: ParseOctalMode_def StringCchLengthW_def)
  then show ?thesis
    by (simp add: parse_mask_string_def parse_three_clauses)
qed

lemmas resolve_eval =
  final_mask_def ConvertActionsToMask_def file_permissions_def compute_defs oct_def chmod_consts

text \<open>Whatever the current mode, the three clauses leave the mode 0050.\<close>

lemma three_clauses_any_mode:
  "final_mask ''u=rwx,g=rx,o='' (Some d) (file_permissions m) = Some (oct 0 5 0)"
  by (simp add: parse_mask_three_clauses resolve_eval Let_def)

text \<open>
  C2. The claim: \<open>u+x\<close> on 0644 yields 0744, \<open>go-w\<close> on 0666 yields 0644, \<open>a=r\<close> on
  0777 yields 0444, octal \<open>0755\<close> yields 0755, and \<open>u=rwx,g=rx,o=\<close> yields 0750. The
  code fails the last example: on an object of mode 0750 the mode string
  \<open>u=rwx,g=rx,o=\<close> yields 0050, the owner's bits set by the first action being cleared
  by the second, whose operator \<open>=\<close> clears the bits outside its \<open>who\<close>.
\<close>

theorem three_clauses_do_not_yield_0750:
  "final_mask ''u=rwx,g=rx,o='' (Some False) (file_permissions (oct 7 5 0)) = Some (oct 0 5 0)
   \<and> final_mask ''u=rwx,g=rx,o='' (Some False) (file_permissions (oct 7 5 0)) \<noteq> Some (oct 7 5 0)"
  by (simp add: parse_mask_three_clauses resolve_eval)

text \<open>
  X6. For an object that is no directory: \<open>u+x\<close> on the mode 0644 yields 0744,
  \<open>go-w\<close> on 0666 yields 0644, \<open>a=r\<close> on 0777 yields 0444; the octal string \<open>0755\<close>
  yields the mask 0755 whatever the queries on the object answer.
\<close>

theorem first_four_examples:
  "final_mask ''u+x'' (Some False) (file_permissions (oct 6 4 4)) = Some (oct 7 4 4)
   \<and> final_mask ''go-w'' (Some False) (file_permissions (oct 6 6 6)) = Some (oct 6 4 4)
   \<and> final_mask ''a=r'' (Some False) (file_permissions (oct 7 7 7)) = Some (oct 4 4 4)
   \<and> final_mask ''0755'' fileInformation query = Some (oct 7 5 5)"
proof -
  have 1: "final_mask ''u+x'' (Some False) (file_permissions (oct 6 4 4)) = Some (oct 7 4 4)"
    by (simp add: parse_u_plus_x resolve_eval)
  have 2: "final_mask ''go-w'' (Some False) (file_permissions (oct 6 6 6)) = Some (oct 6 4 4)"
    by (simp add: parse_go_minus_w resolve_eval)
  have 3: "final_mask ''a=r'' (Some False) (file_permissions (oct 7 7 7)) = Some (oct 4 4 4)"
    by (simp add: parse_a_equal_r resolve_eval)
  have 4: "final_mask ''0755'' fileInformation query = Some (oct 7 5 5)"
    by (simp add: final_mask_def parse_0755)
  from 1 2 3 4 show ?thesis by simp
qed

text \<open>
  The defects of the operator \<open>=\<close> and of the reference, from the mode string on:
  \<open>u=rwx\<close> on a file of mode 0644 yields 0700, \<open>u+g\<close> on a file of mode 0070 yields
  0070, and \<open>u=r,a+X\<close> on a directory of mode 0644 yields 0400, the directory flag
  being lost with the first action.
\<close>

lemma u_equal_rwx_on_0644:
  "final_mask ''u=rwx'' (Some False) (file_permissions (oct 6 4 4)) = Some (oct 7 0 0)"
  by (simp add: parse_eval resolve_eval)

lemma u_plus_g_on_0070:
  "final_mask ''u+g'' (Some False) (file_permissions (oct 0 7 0)) = Some (oct 0 7 0)"
  by (simp add: parse_eval resolve_eval)

lemma set_equal_drops_directory_flag:
  "final_mask ''u=r,a+X'' (Some True) (file_permissions (oct 6 4 4)) = Some (oct 4 0 0)"
  by (simp add: parse_eval resolve_eval)


lemma parse_zz: "parse_mask_string ''zz'' = None"
  by (simp add: parse_eval chmod_consts)

text \<open>
  C8, as stated, fails with the option \<open>-R\<close>: the mode string \<open>zz\<close> is malformed, and
  \<^verbatim>\<open>GetFileInformationByName\<close> has been called on the path when the parse fails.
\<close>

theorem recursive_flag_queries_before_parsing:
  "parse_mask_string ''zz'' = None
   \<and> Chmod (\<lambda>path. Some True) Some (\<lambda>path m actions. (True, [])) (\<lambda>path m actions. (True, []))
       [''chmod'', ''-R'', ''zz'', ''dir'']
     = (EXIT_FAILURE, [NativeCall ''GetFileInformationByName'' ''dir''])"
  by (simp add: Chmod_def ParseCommandLineArguments_def parse_zz Let_def)

text \<open>
  C8, amended. When the mode string is malformed, \<^verbatim>\<open>Chmod\<close> returns \<^verbatim>\<open>EXIT_FAILURE\<close>
  as soon as the parse has failed. Without \<open>-R\<close> it has made no operating system call;
  with \<open>-R\<close> it has made exactly one, the query \<^verbatim>\<open>GetFileInformationByName\<close> on the
  path, which precedes the parse: when that query fails, the arguments are rejected
  whatever the mode string is.
\<close>

theorem malformed_mode_native_calls:
  assumes "parse_mask_string m = None"
  shows "Chmod info conv cm cmr [prog, m, path] = (EXIT_FAILURE, [])
     \<and> (flag \<noteq> ''-R'' \<longrightarrow> Chmod info conv cm cmr [prog, flag, m, path] = (EXIT_FAILURE, []))
     \<and> Chmod info conv cm cmr [prog, ''-R'', m, path] =
         (EXIT_FAILURE, [NativeCall ''GetFileInformationByName'' path])
     \<and> (info path = None \<longrightarrow>
         ParseCommandLineArguments info [prog, ''-R'', anyMode, path] =
           (None, [NativeCall ''GetFileInformationByName'' path]))"
  using assms
  by (simp add: Chmod_def ParseCommandLineArguments_def Let_def split: option.splits)

theorem malformed_mode_native_calls_witness:
  "Chmod (\<lambda>path. Some True) Some (\<lambda>path m actions. (True, [])) (\<lambda>path m actions. (True, []))
       [''chmod'', ''zz'', ''file''] = (EXIT_FAILURE, [])
   \<and> Chmod (\<lambda>path. Some True) Some (\<lambda>path m actions. (True, [])) (\<lambda>path m actions. (True, []))
       [''chmod'', ''-r'', ''zz'', ''file''] = (EXIT_FAILURE, [])
   \<and> Chmod (\<lambda>path. Some False) Some (\<lambda>path m actions. (True, [])) (\<lambda>path m actions. (True, []))
       [''chmod'', ''-R'', ''zz'', ''file'']
     = (EXIT_FAILURE, [NativeCall ''GetFileInformationByName'' ''file''])
   \<and> ParseCommandLineArguments (\<lambda>path. None) [''chmod'', ''-R'', ''0755'', ''file'']
     = (None, [NativeCall ''GetFileInformationByName'' ''file''])"
proof -
  note t = malformed_mode_native_calls [OF parse_zz]
  have 1: "Chmod (\<lambda>path. Some True) Some (\<lambda>path m actions. (True, [])) (\<lambda>path m actions. (True, []))
       [''chmod'', ''zz'', ''file''] = (EXIT_FAILURE, [])"
    using t by blast
  have 2: "Chmod (\<lambda>path. Some True) Some (\<lambda>path m actions. (True, [])) (\<lambda>path m actions. (True, []))
       [''chmod'', ''-r'', ''zz'', ''file''] = (EXIT_FAILURE, [])"
    using t [where flag = "''-r''"] by simp
  have 3: "Chmod (\<lambda>path. Some False) Some (\<lambda>path m actions. (True, [])) (\<lambda>path m actions. (True, []))
       [''chmod'', ''-R'', ''zz'', ''file'']
     = (EXIT_FAILURE, [NativeCall ''GetFileInformationByName'' ''file''])"
    using t by blast
  have 4: "ParseCommandLineArguments (\<lambda>path. None) [''chmod'', ''-R'', ''0755'', ''file'']
     = (None, [NativeCall ''GetFileInformationByName'' ''file''])"
    using t [where info = "\<lambda>path. None"] by simp
  from 1 2 3 4 show ?thesis by simp
qed

section \<open>The access control list and the recursive walk\<close>

lemmas deny_defs = ux_bit_def has_right_def broader_def denied_def win_right_def deny_mask_def

lemma userDeny_deny_mask: "userDeny (GetWindowsAccessMask W m) = deny_mask W m Owner"
  by (simp add: GetWindowsAccessMask_def Let_def deny_defs or.assoc)

lemma groupDeny_deny_mask: "groupDeny (GetWindowsAccessMask W m) = deny_mask W m Group"
  by (simp add: GetWindowsAccessMask_def Let_def deny_defs or.assoc)

lemma deny_mask_Other: "deny_mask W m Other = 0"
  by (simp add: deny_defs)

lemma contains_right_deny_mask:
  assumes "separate_rights W"
  shows "contains_right W (deny_mask W m C) R = denied m C R"
proof -
  have s: "W WIN_READ \<noteq> 0" "W WIN_WRITE \<noteq> 0" "W WIN_EXECUTE \<noteq> 0"
    "W WIN_READ AND W WIN_WRITE = 0" "W WIN_READ AND W WIN_EXECUTE = 0"
    "W WIN_WRITE AND W WIN_EXECUTE = 0"
    "W WIN_WRITE AND W WIN_READ = 0" "W WIN_EXECUTE AND W WIN_READ = 0"
    "W WIN_EXECUTE AND W WIN_WRITE = 0"
    using assms by (auto simp: separate_rights_def and.commute)
  show ?thesis
    by (cases R)
       (auto simp: contains_right_def deny_mask_def win_right_def s bit.conj_disj_distrib2
          bit.conj_disj_distrib)
qed

lemma GetWindowsDACLs_entries:
  assumes "AllocateAndInitializeSid N = Some e" "\<forall>n. LocalAlloc N n" "\<forall>n. InitializeAcl N n"
    "\<forall>acl ace. AddAce N acl ace"
  shows "map_option AceList (GetWindowsDACLs N W m owner grp) =
     Some ((if userDeny (GetWindowsAccessMask W m) \<noteq> 0
            then [ACCESS_DENIED_ACE (userDeny (GetWindowsAccessMask W m)) owner] else []) @
           [ACCESS_ALLOWED_ACE (userAllow (GetWindowsAccessMask W m)) owner] @
           (if groupDeny (GetWindowsAccessMask W m) \<noteq> 0
            then [ACCESS_DENIED_ACE (groupDeny (GetWindowsAccessMask W m)) grp] else []) @
           [ACCESS_ALLOWED_ACE (groupAllow (GetWindowsAccessMask W m)) grp,
            ACCESS_ALLOWED_ACE (otherAllow (GetWindowsAccessMask W m)) e])"
  using assms
  by (simp add: GetWindowsDACLs_def Let_def AddAccessDeniedAce_def AddAccessAllowedAce_def)

text \<open>
  C7. When the Windows calls succeed, the list that \<^verbatim>\<open>GetWindowsDACLs\<close> builds for a
  mask is, in this order: a deny entry for the owner if its mask is not empty, the allow
  entry of the owner, a deny entry for the group if its mask is not empty, the allow
  entry of the group, and the allow entry of Everyone; there is no deny entry for
  Everyone. With a table that tells the three rights apart, the deny mask of class \<open>C\<close>
  contains right \<open>R\<close> if and only if \<open>C\<close> lacks \<open>R\<close> in the mask and some broader class
  possesses \<open>R\<close>.
\<close>

theorem access_control_list_of_mask:
  assumes "AllocateAndInitializeSid N = Some everyone"
      and "\<forall>n. LocalAlloc N n" and "\<forall>n. InitializeAcl N n" and "\<forall>acl ace. AddAce N acl ace"
      and "separate_rights W"
  shows "map_option AceList (GetWindowsDACLs N W m owner grp) =
     Some ((if deny_mask W m Owner \<noteq> 0
            then [ACCESS_DENIED_ACE (deny_mask W m Owner) owner] else []) @
           [ACCESS_ALLOWED_ACE (userAllow (GetWindowsAccessMask W m)) owner] @
           (if deny_mask W m Group \<noteq> 0
            then [ACCESS_DENIED_ACE (deny_mask W m Group) grp] else []) @
           [ACCESS_ALLOWED_ACE (groupAllow (GetWindowsAccessMask W m)) grp,
            ACCESS_ALLOWED_ACE (otherAllow (GetWindowsAccessMask W m)) everyone])
     \<and> (\<forall>C R. contains_right W (deny_mask W m C) R = denied m C R)
     \<and> (\<forall>C R. denied m C R =
          (\<not> has_right m C R \<and> (\<exists>C' \<in> set (broader C). has_right m C' R)))
     \<and> (\<forall>R. denied m Other R = False)"
proof -
  have 1: "map_option AceList (GetWindowsDACLs N W m owner grp) =
     Some ((if deny_mask W m Owner \<noteq> 0
            then [ACCESS_DENIED_ACE (deny_mask W m Owner) owner] else []) @
           [ACCESS_ALLOWED_ACE (userAllow (GetWindowsAccessMask W m)) owner] @
           (if deny_mask W m Group \<noteq> 0
            then [ACCESS_DENIED_ACE (deny_mask W m Group) grp] else []) @
           [ACCESS_ALLOWED_ACE (groupAllow (GetWindowsAccessMask W m)) grp,
            ACCESS_ALLOWED_ACE (otherAllow (GetWindowsAccessMask W m)) everyone])"
    using GetWindowsDACLs_entries [OF assms(1-4), of W m owner grp]
    by (simp only: userDeny_deny_mask groupDeny_deny_mask)
  have 2: "\<forall>C R. contains_right W (deny_mask W m C) R = denied m C R"
    using contains_right_deny_mask [OF assms(5)] by blast
  have 3: "\<forall>C R. denied m C R =
          (\<not> has_right m C R \<and> (\<exists>C' \<in> set (broader C). has_right m C' R))"
    by (simp add: denied_def list_ex_iff)
  have 4: "\<forall>R. denied m Other R = False"
    by (simp add: denied_def broader_def)
  from 1 2 3 4 show ?thesis by blast
qed

lemma example_natives_ok:
  "AllocateAndInitializeSid example_natives = Some ''Everyone''"
  "\<forall>n. LocalAlloc example_natives n" "\<forall>n. InitializeAcl example_natives n"
  "\<forall>acl ace. AddAce example_natives acl ace"
  by (simp_all add: example_natives_def)

lemma example_WinMasks_separate: "separate_rights example_WinMasks"
  by (simp add: separate_rights_def example_WinMasks_def)

lemmas ux_consts =
  UX_O_EXECUTE_def UX_O_WRITE_def UX_O_READ_def UX_G_EXECUTE_def UX_G_WRITE_def UX_G_READ_def
  UX_U_EXECUTE_def UX_U_WRITE_def UX_U_READ_def

theorem access_control_list_of_mask_witness:
  "map_option AceList
     (GetWindowsDACLs example_natives example_WinMasks (oct 4 6 7) ''owner'' ''group'') =
     Some [ACCESS_DENIED_ACE 0x176 ''owner'', ACCESS_ALLOWED_ACE 0x1F0199 ''owner'',
           ACCESS_DENIED_ACE 0x20 ''group'', ACCESS_ALLOWED_ACE 0x1201DF ''group'',
           ACCESS_ALLOWED_ACE 0x1201FF ''Everyone'']
   \<and> map_option AceList
     (GetWindowsDACLs example_natives example_WinMasks (oct 6 4 0) ''owner'' ''group'') =
     Some [ACCESS_ALLOWED_ACE 0x1F01DF ''owner'', ACCESS_ALLOWED_ACE 0x120089 ''group'',
           ACCESS_ALLOWED_ACE 0x120088 ''Everyone'']
   \<and> contains_right example_WinMasks (deny_mask example_WinMasks (oct 4 6 7) Owner) Write
   \<and> contains_right example_WinMasks (deny_mask example_WinMasks (oct 4 6 7) Owner) Read = False"
proof -
  note t = access_control_list_of_mask [OF example_natives_ok example_WinMasks_separate]
  have d1: "deny_mask example_WinMasks (oct 4 6 7) Owner = 0x176"
    "deny_mask example_WinMasks (oct 4 6 7) Group = 0x20"
    by (simp_all add: deny_defs example_WinMasks_def oct_def ux_consts)
  have g1: "GetWindowsAccessMask example_WinMasks (oct 4 6 7) =
     \<lparr>userAllow = 0x1F0199, userDeny = 0x176, groupAllow = 0x1201DF, groupDeny = 0x20,
      otherAllow = 0x1201FF\<rparr>"
    by (simp add: GetWindowsAccessMask_def example_WinMasks_def FILE_GENERIC_READ_def
        oct_def ux_consts)
  have d2: "deny_mask example_WinMasks (oct 6 4 0) Owner = 0"
    "deny_mask example_WinMasks (oct 6 4 0) Group = 0"
    by (simp_all add: deny_defs example_WinMasks_def oct_def ux_consts)
  have g2: "GetWindowsAccessMask example_WinMasks (oct 6 4 0) =
     \<lparr>userAllow = 0x1F01DF, userDeny = 0, groupAllow = 0x120089, groupDeny = 0,
      otherAllow = 0x120088\<rparr>"
    by (simp add: GetWindowsAccessMask_def example_WinMasks_def FILE_GENERIC_READ_def
        oct_def ux_consts)
  have 1: "map_option AceList
     (GetWindowsDACLs example_natives example_WinMasks (oct 4 6 7) ''owner'' ''group'') =
     Some [ACCESS_DENIED_ACE 0x176 ''owner'', ACCESS_ALLOWED_ACE 0x1F0199 ''owner'',
           ACCESS_DENIED_ACE 0x20 ''group'', ACCESS_ALLOWED_ACE 0x1201DF ''group'',
           ACCESS_ALLOWED_ACE 0x1201FF ''Everyone'']"
    using t [of "oct 4 6 7" "''owner''" "''group''", THEN conjunct1]
    by (simp add: d1 g1)
  have 2: "map_option AceList
     (GetWindowsDACLs example_natives example_WinMasks (oct 6 4 0) ''owner'' ''group'') =
     Some [ACCESS_ALLOWED_ACE 0x1F01DF ''owner'', ACCESS_ALLOWED_ACE 0x120089 ''group'',
           ACCESS_ALLOWED_ACE 0x120088 ''Everyone'']"
    using t [of "oct 6 4 0" "''owner''" "''group''", THEN conjunct1]
    by (simp add: d2 g2)
  have w: "denied (oct 4 6 7) Owner Write" "denied (oct 4 6 7) Owner Read = False"
    by (simp_all add: deny_defs oct_def ux_consts)
  have 3: "contains_right example_WinMasks (deny_mask example_WinMasks (oct 4 6 7) Owner) Write"
    using t [of "oct 4 6 7", THEN conjunct2, THEN conjunct1, rule_format, of Owner Write] w
    by simp
  have 4: "contains_right example_WinMasks (deny_mask example_WinMasks (oct 4 6 7) Owner) Read
      = False"
    using t [of "oct 4 6 7", THEN conjunct2, THEN conjunct1, rule_format, of Owner Read] w
    by simp
  from 1 2 3 4 show ?thesis by simp
qed

lemma walk_success_post_order:
  "fst (ChangeFileModeRecursively p t) \<longrightarrow> snd (ChangeFileModeRecursively p t) = post_order p t"
  "fst (walk_entries p es) \<longrightarrow> snd (walk_entries p es) = post_order_entries p es"
  by (induction p t and p es rule: ChangeFileModeRecursively_walk_entries.induct)
     (auto split: option.splits prod.splits bool.splits if_splits)

lemma calls_below:
  "\<forall>q \<in> set (snd (ChangeFileModeRecursively p t)). length p \<le> length q"
  "\<forall>q \<in> set (snd (walk_entries p es)). length p < length q"
  by (induction p t and p es rule: ChangeFileModeRecursively_walk_entries.induct)
     (fastforce split: option.splits prod.splits bool.splits if_splits)+

lemma walk_entries_append:
  "walk_entries p (es1 @ es2) =
     (case walk_entries p es1 of
        (False, calls) \<Rightarrow> (False, calls)
      | (True, calls) \<Rightarrow> (case walk_entries p es2 of (r, calls') \<Rightarrow> (r, calls @ calls')))"
  by (induction es1) (auto split: prod.splits bool.splits)

lemma child_failure:
  assumes "fst (walk_entries p es1)" "fst e \<noteq> ''.''" "fst e \<noteq> ''..''"
    "\<not> fst (ChangeFileModeRecursively (p @ [CHR 0x5C] @ fst e) (snd e))"
  shows "walk_entries p (es1 @ e # es2) =
     (False, snd (walk_entries p es1) @
             snd (ChangeFileModeRecursively (p @ [CHR 0x5C] @ fst e) (snd e)))"
  using assms by (auto simp: walk_entries_append split: prod.splits bool.splits)

lemma dir_after_failure:
  assumes "\<not> fst (walk_entries p es)"
  shows "\<not> fst (ChangeFileModeRecursively p (Dir ok es)) \<and>
         p \<notin> set (snd (ChangeFileModeRecursively p (Dir ok es)))"
  using assms calls_below(2) [of p es]
  by (auto split: option.splits prod.splits bool.splits)

lemma attempt_ok_simps:
  "attempt_ok (Applied path ok) = ok" "attempt_ok Unreadable = False"
  by (simp_all add: attempt_ok_def)

lemma run_append:
  "run_until_failure (xs @ ys) =
     (if fst (run_until_failure xs)
      then (fst (run_until_failure ys), snd (run_until_failure xs) @ snd (run_until_failure ys))
      else (False, snd (run_until_failure xs)))"
  by (induction xs rule: run_until_failure.induct) auto

lemma run_fst: "fst (run_until_failure xs) = list_all attempt_ok xs"
  by (induction xs rule: run_until_failure.induct) (auto simp: attempt_ok_def)

lemma walk_runs_attempts:
  "ChangeFileModeRecursively p t = run_until_failure (attempts p t)"
  "walk_entries p es = run_until_failure (attempts_entries p es)"
  by (induction p t and p es rule: ChangeFileModeRecursively_walk_entries.induct)
     (auto simp: run_append StringCchLengthW_def split: prod.splits bool.splits)

lemma all_ok_post_order:
  "list_all attempt_ok (attempts p t) \<longrightarrow> snd (run_until_failure (attempts p t)) = post_order p t"
  "list_all attempt_ok (attempts_entries p es) \<longrightarrow>
     snd (run_until_failure (attempts_entries p es)) = post_order_entries p es"
  by (induction p t and p es rule: attempts_attempts_entries.induct)
     (auto simp: run_append run_fst attempt_ok_simps)

text \<open>
  C9. The recursive walk is the run through the post-order attempts up to the first
  failure: it applies the change to every child of a directory, the two pseudo-entries
  left out, each with all that lies below it, before the directory itself, and it
  succeeds exactly when every attempt succeeds; the calls of a successful walk are the
  objects in post-order. When an attempt among the entries of a directory fails, the
  walk of the directory fails and the change is not applied to the directory. When the
  entries before a failing child have succeeded, the calls made are those of these
  entries in full and those of the failing child up to its failure: the later entries
  are not visited, and nothing is undone.
\<close>

theorem recursive_walk_post_order:
  "ChangeFileModeRecursively p t = run_until_failure (attempts p t)
   \<and> fst (ChangeFileModeRecursively p t) = list_all attempt_ok (attempts p t)
   \<and> (list_all attempt_ok (attempts p t) \<longrightarrow>
        snd (ChangeFileModeRecursively p t) = post_order p t)
   \<and> (\<not> list_all attempt_ok (attempts_entries p es) \<longrightarrow>
        fst (ChangeFileModeRecursively p (Dir ok es)) = False
        \<and> p \<notin> set (snd (ChangeFileModeRecursively p (Dir ok es))))
   \<and> (length p < MAX_PATH - 3 \<and> list_all attempt_ok (attempts_entries p es1)
        \<and> fst e \<noteq> ''.'' \<and> fst e \<noteq> ''..''
        \<and> \<not> list_all attempt_ok (attempts (p @ [CHR 0x5C] @ fst e) (snd e)) \<longrightarrow>
        ChangeFileModeRecursively p (Dir ok (es1 @ e # es2)) =
          (False, post_order_entries p es1 @
                  snd (run_until_failure (attempts (p @ [CHR 0x5C] @ fst e) (snd e)))))"
proof -
  have 1: "ChangeFileModeRecursively p t = run_until_failure (attempts p t)"
    by (rule walk_runs_attempts)
  have 2: "fst (ChangeFileModeRecursively p t) = list_all attempt_ok (attempts p t)"
    by (simp add: walk_runs_attempts run_fst)
  have 3: "list_all attempt_ok (attempts p t) \<longrightarrow>
        snd (ChangeFileModeRecursively p t) = post_order p t"
    using all_ok_post_order(1) [of p t] by (simp add: walk_runs_attempts)
  have 4: "\<not> list_all attempt_ok (attempts_entries p es) \<longrightarrow>
        fst (ChangeFileModeRecursively p (Dir ok es)) = False
        \<and> p \<notin> set (snd (ChangeFileModeRecursively p (Dir ok es)))"
  proof
    assume "\<not> list_all attempt_ok (attempts_entries p es)"
    then have "\<not> fst (walk_entries p es)"
      by (simp add: walk_runs_attempts run_fst)
    then show "fst (ChangeFileModeRecursively p (Dir ok es)) = False
        \<and> p \<notin> set (snd (ChangeFileModeRecursively p (Dir ok es)))"
      using dir_after_failure [of p es ok] by simp
  qed
  have 5: "length p < MAX_PATH - 3 \<and> list_all attempt_ok (attempts_entries p es1)
        \<and> fst e \<noteq> ''.'' \<and> fst e \<noteq> ''..''
        \<and> \<not> list_all attempt_ok (attempts (p @ [CHR 0x5C] @ fst e) (snd e)) \<longrightarrow>
        ChangeFileModeRecursively p (Dir ok (es1 @ e # es2)) =
          (False, post_order_entries p es1 @
                  snd (run_until_failure (attempts (p @ [CHR 0x5C] @ fst e) (snd e))))"
  proof
    assume h: "length p < MAX_PATH - 3 \<and> list_all attempt_ok (attempts_entries p es1)
        \<and> fst e \<noteq> ''.'' \<and> fst e \<noteq> ''..''
        \<and> \<not> list_all attempt_ok (attempts (p @ [CHR 0x5C] @ fst e) (snd e))"
    then have a: "fst (walk_entries p es1)"
      and b: "\<not> fst (ChangeFileModeRecursively (p @ [CHR 0x5C] @ fst e) (snd e))"
      by (simp_all add: walk_runs_attempts run_fst)
    have c: "snd (walk_entries p es1) = post_order_entries p es1"
      using h all_ok_post_order(2) [of p es1] by (simp add: walk_runs_attempts)
    have "walk_entries p (es1 @ e # es2) =
       (False, snd (walk_entries p es1) @
               snd (ChangeFileModeRecursively (p @ [CHR 0x5C] @ fst e) (snd e)))"
      using child_failure [of p es1 e es2] a b h by simp
    with h c show "ChangeFileModeRecursively p (Dir ok (es1 @ e # es2)) =
          (False, post_order_entries p es1 @
                  snd (run_until_failure (attempts (p @ [CHR 0x5C] @ fst e) (snd e))))"
      by (simp add: StringCchLengthW_def walk_runs_attempts(1) [symmetric])
  qed
  from 1 2 3 4 5 show ?thesis by blast
qed

theorem recursive_walk_post_order_witness:
  "ChangeFileModeRecursively ''top''
     (Dir True [(''.'', NoInfo), (''..'', NoInfo), (''file'', File True),
                (''sub'', Dir True [(''.'', NoInfo), (''..'', NoInfo)])])
   = (True, [''top'' @ [CHR 0x5C] @ ''file'', ''top'' @ [CHR 0x5C] @ ''sub'', ''top''])
   \<and> ChangeFileModeRecursively ''top''
     (Dir True [(''a'', File True), (''b'', File False), (''c'', File True)])
   = (False, [''top'' @ [CHR 0x5C] @ ''a'', ''top'' @ [CHR 0x5C] @ ''b''])
   \<and> ChangeFileModeRecursively ''top''
     (Dir True [(''sub'', Dir False [(''x'', File True)]), (''c'', File True)])
   = (False, [''top'' @ [CHR 0x5C] @ ''sub'' @ [CHR 0x5C] @ ''x'', ''top'' @ [CHR 0x5C] @ ''sub''])
   \<and> ChangeFileModeRecursively ''top'' (Dir True [(''u'', NoInfo), (''c'', File True)])
   = (False, [])
   \<and> ChangeFileModeRecursively ''top'' (Dir False [(''a'', File True)])
   = (False, [''top'' @ [CHR 0x5C] @ ''a'', ''top''])"
proof -
  note t = recursive_walk_post_order
  let ?t1 = "Dir True [(''.'', NoInfo), (''..'', NoInfo), (''file'', File True),
                (''sub'', Dir True [(''.'', NoInfo), (''..'', NoInfo)])]"
  have ok: "list_all attempt_ok (attempts ''top'' ?t1)"
    by (simp add: MAX_PATH_def attempt_ok_simps)
  have "fst (ChangeFileModeRecursively ''top'' ?t1)"
    "snd (ChangeFileModeRecursively ''top'' ?t1) = post_order ''top'' ?t1"
    using t [where p = "''top''" and t = ?t1] ok by blast+
  then have 1: "ChangeFileModeRecursively ''top'' ?t1
     = (True, [''top'' @ [CHR 0x5C] @ ''file'', ''top'' @ [CHR 0x5C] @ ''sub'', ''top''])"
    by (simp add: prod_eq_iff)
  have 2: "ChangeFileModeRecursively ''top''
     (Dir True ([(''a'', File True)] @ (''b'', File False) # [(''c'', File True)]))
   = (False, [''top'' @ [CHR 0x5C] @ ''a'', ''top'' @ [CHR 0x5C] @ ''b''])"
    using t [where p = "''top''" and ?es1.0 = "[(''a'', File True)]" and e = "(''b'', File False)"
        and ?es2.0 = "[(''c'', File True)]" and ok = True]
    by (simp add: MAX_PATH_def attempt_ok_simps)
  have 3: "ChangeFileModeRecursively ''top''
     (Dir True ([] @ (''sub'', Dir False [(''x'', File True)]) # [(''c'', File True)]))
   = (False, [''top'' @ [CHR 0x5C] @ ''sub'' @ [CHR 0x5C] @ ''x'', ''top'' @ [CHR 0x5C] @ ''sub''])"
    using t [where p = "''top''" and ?es1.0 = "[]"
        and e = "(''sub'', Dir False [(''x'', File True)])"
        and ?es2.0 = "[(''c'', File True)]" and ok = True]
    by (simp add: MAX_PATH_def attempt_ok_simps)
  have 4: "ChangeFileModeRecursively ''top'' (Dir True [(''u'', NoInfo), (''c'', File True)])
   = (False, [])"
    using t [where p = "''top''" and t = "Dir True [(''u'', NoInfo), (''c'', File True)]",
        THEN conjunct1]
    by (simp add: MAX_PATH_def)
  have 5: "ChangeFileModeRecursively ''top'' (Dir False [(''a'', File True)])
   = (False, [''top'' @ [CHR 0x5C] @ ''a'', ''top''])"
    using t [where p = "''top''" and t = "Dir False [(''a'', File True)]", THEN conjunct1]
    by (simp add: MAX_PATH_def)
  from 1 2 3 4 5 show ?thesis by simp
qed

end
